theory Spec2Isabelle
  imports Complex_Main "HOL-Library.Word" "HOL-Library.Sublist"
begin

section \<open>Strings\<close>

text \<open>
  Go strings are byte sequences; they are modelled as \<open>string\<close> (a list of bytes). The
  functions of the standard \<open>strings\<close> package that the import code calls are written
  out here on bytes, with the UTF-8 sequences they treat specially spelled out.
\<close>

definition isAsciiSpace :: "char \<Rightarrow> bool" where
  "isAsciiSpace c = (c \<in> set [CHR 0x09, CHR 0x0A, CHR 0x0B, CHR 0x0C, CHR 0x0D, CHR 0x20])"

text \<open>
  The UTF-8 encodings of the non-ASCII code points for which \<open>unicode.IsSpace\<close> holds:
  U+0085, U+00A0, U+1680, U+2000 to U+200A, U+2028, U+2029, U+202F, U+205F, U+3000.
\<close>

definition spaceRunes :: "string list" where
  "spaceRunes =
     [[CHR 0xC2, CHR 0x85], [CHR 0xC2, CHR 0xA0], [CHR 0xE1, CHR 0x9A, CHR 0x80],
      [CHR 0xE2, CHR 0x80, CHR 0x80], [CHR 0xE2, CHR 0x80, CHR 0x81],
      [CHR 0xE2, CHR 0x80, CHR 0x82], [CHR 0xE2, CHR 0x80, CHR 0x83],
      [CHR 0xE2, CHR 0x80, CHR 0x84], [CHR 0xE2, CHR 0x80, CHR 0x85],
      [CHR 0xE2, CHR 0x80, CHR 0x86], [CHR 0xE2, CHR 0x80, CHR 0x87],
      [CHR 0xE2, CHR 0x80, CHR 0x88], [CHR 0xE2, CHR 0x80, CHR 0x89],
      [CHR 0xE2, CHR 0x80, CHR 0x8A], [CHR 0xE2, CHR 0x80, CHR 0xA8],
      [CHR 0xE2, CHR 0x80, CHR 0xA9], [CHR 0xE2, CHR 0x80, CHR 0xAF],
      [CHR 0xE2, CHR 0x81, CHR 0x9F], [CHR 0xE3, CHR 0x80, CHR 0x80]]"

text \<open>
  The number of bytes of the white-space rune a string starts with (0 when it starts
  with none), and the same for the rune a reversed string ends with.
\<close>

definition leadingSpace :: "string \<Rightarrow> nat" where
  "leadingSpace s =
     (case s of [] \<Rightarrow> 0
      | c # cs \<Rightarrow> if isAsciiSpace c then 1
                 else (case filter (\<lambda>p. prefix p s) spaceRunes of [] \<Rightarrow> 0 | p # ps \<Rightarrow> length p))"

definition trailingSpace :: "string \<Rightarrow> nat" where
  "trailingSpace r =
     (case r of [] \<Rightarrow> 0
      | c # cs \<Rightarrow> if isAsciiSpace c then 1
                 else (case filter (\<lambda>p. prefix (rev p) r) spaceRunes of [] \<Rightarrow> 0 | p # ps \<Rightarrow> length p))"

fun trimLeftSpace :: "string \<Rightarrow> string" where
  "trimLeftSpace [] = []"
| "trimLeftSpace (c # cs) =
     (case leadingSpace (c # cs) of 0 \<Rightarrow> c # cs | Suc k \<Rightarrow> trimLeftSpace (drop k cs))"

fun trimRightSpaceRev :: "string \<Rightarrow> string" where
  "trimRightSpaceRev [] = []"
| "trimRightSpaceRev (c # cs) =
     (case trailingSpace (c # cs) of 0 \<Rightarrow> c # cs | Suc k \<Rightarrow> trimRightSpaceRev (drop k cs))"

text \<open>\<open>strings.TrimSpace\<close>: leading white space goes first, then trailing white space.\<close>

definition TrimSpace :: "string \<Rightarrow> string" where
  "TrimSpace s = rev (trimRightSpaceRev (rev (trimLeftSpace s)))"

definition TrimPrefix :: "string \<Rightarrow> string \<Rightarrow> string" where
  "TrimPrefix s p = (if prefix p s then drop (length p) s else s)"

text \<open>\<open>strings.Trim\<close> for a cutset of ASCII bytes.\<close>

definition Trim :: "string \<Rightarrow> string \<Rightarrow> string" where
  "Trim s cutset =
     rev (dropWhile (\<lambda>c. c \<in> set cutset) (rev (dropWhile (\<lambda>c. c \<in> set cutset) s)))"

text \<open>
  \<open>strings.ReplaceAll\<close> for a non-empty \<open>old\<close>, as at every call site: one pass from the
  left over non-overlapping occurrences; the replacement is not scanned again.
\<close>

function ReplaceAll :: "string \<Rightarrow> string \<Rightarrow> string \<Rightarrow> string" where
  "ReplaceAll [] old new = []"
| "ReplaceAll (c # cs) old new =
     (if old \<noteq> [] \<and> prefix old (c # cs)
      then new @ ReplaceAll (drop (length old) (c # cs)) old new
      else c # ReplaceAll cs old new)"
  by pat_completeness auto
termination
  by (relation "measure (\<lambda>(s, old, new). length s)") (auto simp: neq_Nil_conv)

fun Contains :: "string \<Rightarrow> string \<Rightarrow> bool" where
  "Contains [] sub = (sub = [])"
| "Contains (c # cs) sub = (prefix sub (c # cs) \<or> Contains cs sub)"

text \<open>\<open>strings.Index\<close> for a one-byte separator: the first position, or -1.\<close>

definition IndexByte :: "string \<Rightarrow> char \<Rightarrow> int" where
  "IndexByte s c = (if c \<in> set s then int (length (takeWhile (\<lambda>x. x \<noteq> c) s)) else - 1)"

definition isUpperAscii :: "char \<Rightarrow> bool" where
  "isUpperAscii c = (65 \<le> (of_char c :: nat) \<and> (of_char c :: nat) \<le> 90)"

definition lowerAscii :: "char \<Rightarrow> char" where
  "lowerAscii c = (if isUpperAscii c then char_of ((of_char c :: nat) + 32) else c)"

definition isAscii :: "char \<Rightarrow> bool" where
  "isAscii c = ((of_char c :: nat) < 128)"

text \<open>
  \<open>strings.ToLower\<close> on the ASCII bytes of a string. Bytes of multi-byte runes are kept:
  the only non-ASCII runes whose lower case is ASCII become \<open>k\<close> and \<open>i\<close>, letters that
  none of the patterns searched for in a lowered string contains.
\<close>

definition ToLower :: "string \<Rightarrow> string" where
  "ToLower s = map lowerAscii s"

text \<open>
  \<open>strings.EqualFold s t\<close> for an ASCII \<open>t\<close>, as the constant metadata key is. ASCII bytes
  of \<open>s\<close> match up to letter case. Under Unicode simple case folding two non-ASCII runes
  fold to an ASCII letter: U+212A (bytes E2 84 AA) to \<open>k\<close> and U+017F (C5 BF) to \<open>s\<close>.
\<close>

function EqualFold :: "string \<Rightarrow> string \<Rightarrow> bool" where
  "EqualFold [] [] = True"
| "EqualFold [] (b # t) = False"
| "EqualFold (a # s) [] = False"
| "EqualFold (a # s) (b # t) =
     (if isAscii a then lowerAscii a = lowerAscii b \<and> EqualFold s t
      else if lowerAscii b = CHR ''k'' \<and> prefix [CHR 0xE2, CHR 0x84, CHR 0xAA] (a # s)
        then EqualFold (drop 2 s) t
      else if lowerAscii b = CHR ''s'' \<and> prefix [CHR 0xC5, CHR 0xBF] (a # s)
        then EqualFold (drop 1 s) t
      else False)"
  by pat_completeness auto
termination
  by (relation "measure (\<lambda>(s, t). length s)") auto

section \<open>Prefix normalisation\<close>

definition normalizeObjectPrefix :: "string \<Rightarrow> string" where
  "normalizeObjectPrefix p0 =
     (let p1 = TrimSpace p0;
          p2 = TrimPrefix p1 ''/'';
          p3 = ReplaceAll p2 ''//'' ''/'';
          p4 = Trim p3 ''/''
      in if p4 = [] then [] else p4 @ ''/'')"

section \<open>Library data\<close>

text \<open>
  The fields of the video library's \<open>Format\<close> and \<open>Video\<close> structures that the import
  code or the library's quality comparison read. \<open>int64\<close> fields are 64-bit words, read
  as signed numbers with \<open>sint\<close>.
\<close>

type_synonym int64 = "64 word"

record Format =
  MimeType :: string
  AudioChannels :: int
  ContentLength :: int64
  ItagNo :: int
  Bitrate :: int
  Width :: int
  Height :: int
  FPS :: int

record Video =
  ID :: string
  Title :: string
  Formats :: "Format list"

record PlaylistEntry =
  EntryID :: string
  EntryTitle :: string

type_synonym metadata = "(string \<times> string) list"

section \<open>Result types\<close>

record YouTubeImportedItem =
  ItemTitle :: string
  Key :: string
  ItemVideoID :: string
  SizeBytes :: int64
  ContentType :: string

record YouTubeImportError =
  ErrTitle :: string
  ErrVideoID :: string
  Error :: string

text \<open>
  The counters \<open>Imported\<close> and \<open>Skipped\<close> are Go \<open>int\<close>s that count elements of a slice
  held in memory, so they are natural numbers here; \<open>TotalBytes\<close> is an \<open>int64\<close> sum
  and wraps.
\<close>

record YouTubeImportResult =
  Kind :: string
  Imported :: nat
  Skipped :: nat
  TotalBytes :: int64
  Items :: "YouTubeImportedItem list"
  Errors :: "YouTubeImportError list"

definition youtubeVideoIDMetadataKey :: string where
  "youtubeVideoIDMetadataKey = ''bucketbird-video-id''"

definition youtubeVideoTitleMetadataKey :: string where
  "youtubeVideoTitleMetadataKey = ''bucketbird-video-title''"

section \<open>Format selection\<close>

text \<open>The library's \<open>FormatList.WithAudioChannels\<close> keeps the formats with audio channels.\<close>

definition WithAudioChannels :: "Format list \<Rightarrow> Format list" where
  "WithAudioChannels fs = filter (\<lambda>f. 0 < AudioChannels f) fs"

text \<open>
  The library's \<open>FormatList.Sort\<close> is a stable sort (\<open>sort.SliceStable\<close>) under the library's
  quality comparison. The comparison \<open>lessFn a b\<close> (\<open>a\<close> sorts ahead of \<open>b\<close>) is a parameter
  of the model; the stable sort is written as an insertion sort.
\<close>

fun insertFormat :: "(Format \<Rightarrow> Format \<Rightarrow> bool) \<Rightarrow> Format \<Rightarrow> Format list \<Rightarrow> Format list" where
  "insertFormat lessFn x [] = [x]"
| "insertFormat lessFn x (y # ys) =
     (if lessFn y x then y # insertFormat lessFn x ys else x # y # ys)"

definition SortFormats :: "(Format \<Rightarrow> Format \<Rightarrow> bool) \<Rightarrow> Format list \<Rightarrow> Format list" where
  "SortFormats lessFn fs = foldr (insertFormat lessFn) fs []"

text \<open>
  \<open>candidate[0]\<close> is the head of the sorted list. The sort keeps the length of a
  non-empty list, so the case of an empty list is never taken; it is there to make the
  function total.
\<close>

definition noAudioMessage :: string where
  "noAudioMessage = ''no downloadable formats with audio were found''"

definition selectYouTubeFormat :: "(Format \<Rightarrow> Format \<Rightarrow> bool) \<Rightarrow> Video \<Rightarrow> string + Format" where
  "selectYouTubeFormat lessFn video =
     (let withAudio = WithAudioChannels (Formats video)
      in if length withAudio = 0 then Inl noAudioMessage
         else
           let mp4Formats = filter (\<lambda>f. Contains (MimeType f) ''mp4'') withAudio;
               candidate = (if 0 < length mp4Formats then SortFormats lessFn mp4Formats
                            else SortFormats lessFn withAudio)
           in (case candidate of [] \<Rightarrow> Inl noAudioMessage | selected # rest \<Rightarrow> Inr selected))"

section \<open>Destination names\<close>

text \<open>
  \<open>fileNameSanitizer\<close> matches every run of runes outside \<open>a-z A-Z 0-9 - . _\<close> and the
  space; replacing the matches by the empty string keeps exactly the allowed bytes (each
  byte of a multi-byte rune belongs to a match).
\<close>

definition allowedFileNameChar :: "char \<Rightarrow> bool" where
  "allowedFileNameChar c =
     (let n = (of_char c :: nat)
      in (97 \<le> n \<and> n \<le> 122) \<or> (65 \<le> n \<and> n \<le> 90) \<or> (48 \<le> n \<and> n \<le> 57)
         \<or> c = CHR ''-'' \<or> c = CHR ''.'' \<or> c = CHR ''_'' \<or> c = CHR '' '')"

text \<open>
  \<open>strings.Fields\<close> on a string of ASCII bytes (what the sanitizer leaves), and
  \<open>strings.Join\<close>.
\<close>

fun fieldsFrom :: "string \<Rightarrow> string \<Rightarrow> string list" where
  "fieldsFrom cur [] = (if cur = [] then [] else [cur])"
| "fieldsFrom cur (c # cs) =
     (if isAsciiSpace c then (if cur = [] then fieldsFrom [] cs else cur # fieldsFrom [] cs)
      else fieldsFrom (cur @ [c]) cs)"

definition Fields :: "string \<Rightarrow> string list" where
  "Fields s = fieldsFrom [] s"

fun Join :: "string list \<Rightarrow> string \<Rightarrow> string" where
  "Join [] sep = []"
| "Join [w] sep = w"
| "Join (w # v # ws) sep = w @ sep @ Join (v # ws) sep"

definition sanitizeFileName :: "string \<Rightarrow> string" where
  "sanitizeFileName v0 =
     (let v1 = filter allowedFileNameChar v0;
          v2 = TrimSpace v1;
          v3 = ReplaceAll v2 ''/'' ''-'';
          v4 = ReplaceAll v3 [CHR 0x5C] ''-''
      in Join (Fields v4) ''-'')"

definition buildYouTubeBaseName :: "string \<Rightarrow> string" where
  "buildYouTubeBaseName title =
     (let name = sanitizeFileName title;
          name = (if name = [] then ''youtube-video'' else name)
      in if 80 < length name then take 80 name else name)"

definition extensionFromMime :: "string \<Rightarrow> string" where
  "extensionFromMime mimeType =
     (if Contains mimeType ''audio/mp4'' then ''.m4a''
      else if Contains mimeType ''mp4'' then ''.mp4''
      else if Contains mimeType ''webm'' then ''.webm''
      else ''.bin'')"

definition buildYouTubeFilename :: "string \<Rightarrow> Format \<Rightarrow> string" where
  "buildYouTubeFilename title format =
     buildYouTubeBaseName title @ extensionFromMime (MimeType format)"

definition buildYouTubeFilenameWithID :: "string \<Rightarrow> string \<Rightarrow> Format \<Rightarrow> string" where
  "buildYouTubeFilenameWithID title videoID format =
     buildYouTubeBaseName title @ ''-'' @ videoID @ extensionFromMime (MimeType format)"

definition contentTypeFromMime :: "string \<Rightarrow> string" where
  "contentTypeFromMime mimeType =
     (let idx = IndexByte mimeType (CHR '';'')
      in TrimSpace (if - 1 < idx then take (nat idx) mimeType else mimeType))"

section \<open>Identity metadata\<close>

text \<open>
  A Go \<open>map[string]string\<close> is read here only for emptiness and for the existence of a
  matching entry, so the order of its entries does not matter; it is a list of pairs.
\<close>

definition metadataMatchesYouTubeVideo :: "metadata \<Rightarrow> string \<Rightarrow> bool" where
  "metadataMatchesYouTubeVideo md videoID =
     (if length md = 0 \<or> videoID = [] then False
      else list_ex (\<lambda>(key, val). EqualFold key youtubeVideoIDMetadataKey \<and> val = videoID) md)"

text \<open>An error value is \<open>None\<close> for Go's \<open>nil\<close> and \<open>Some\<close> of its message otherwise.\<close>

definition isNotFoundError :: "string option \<Rightarrow> bool" where
  "isNotFoundError err =
     (case err of None \<Rightarrow> False
      | Some m \<Rightarrow> (let msg = ToLower m
                  in Contains msg ''notfound'' \<or> Contains msg ''status code: 404''))"

section \<open>Progress reporter\<close>

text \<open>
  One \<open>Read\<close> of the underlying stream is described by what it returned and by the clock:
  \<open>evN\<close> bytes (an \<open>io.Reader\<close> returns \<open>0 \<le> n\<close>), the error value, and the readings
  \<open>time.Now()\<close> gives to the two \<open>report\<close> calls of that read, in nanoseconds. A stream
  is the sequence of reads its consumer makes, with a counter of the \<open>Close\<close> calls it
  has received. The wrapper and the code that opened the stream hold the same stream, so
  the stream state is threaded through both.
\<close>

datatype readErr = NoError | EOF | ReadFailed string

record readEvent =
  evN :: nat
  evErr :: readErr
  evNowData :: int
  evNowEOF :: int

record Stream =
  streamReads :: "readEvent list"
  closeCalls :: nat

definition StreamClose :: "Stream \<Rightarrow> Stream" where
  "StreamClose s = s\<lparr>closeCalls := closeCalls s + 1\<rparr>"

text \<open>
  One call of the progress callback. The throughput is a \<open>float64\<close> in the code; it is
  the exact quotient here.
\<close>

record sample =
  sBytesRead :: int64
  sTotal :: int64
  sSpeed :: real

text \<open>
  The wrapper's fields. \<open>callback\<close> says whether a callback is registered (not \<open>nil\<close>);
  \<open>emitted\<close> lists the calls made to it, oldest first. Times are nanoseconds.
\<close>

record progressReader =
  total :: int64
  bytesRead :: int64
  lastBytes :: int64
  lastTime :: int
  callback :: bool
  emitted :: "sample list"

definition newProgressReader :: "int64 \<Rightarrow> bool \<Rightarrow> int \<Rightarrow> progressReader" where
  "newProgressReader tot cb now =
     \<lparr>total = tot, bytesRead = 0, lastBytes = 0, lastTime = now, callback = cb, emitted = []\<rparr>"

definition report :: "bool \<Rightarrow> int \<Rightarrow> progressReader \<Rightarrow> progressReader" where
  "report force now p =
     (if \<not> callback p then p
      else if \<not> force \<and> now - lastTime p < 500 * 1000000 then p
      else
        let deltaBytes = bytesRead p - lastBytes p;
            deltaTime = real_of_int (now - lastTime p) / 1000000000;
            speed = (if 0 < deltaTime then real_of_int (sint deltaBytes) / deltaTime else 0)
        in p\<lparr>emitted := emitted p @ [\<lparr>sBytesRead = bytesRead p, sTotal = total p, sSpeed = speed\<rparr>],
             lastTime := now,
             lastBytes := bytesRead p\<rparr>)"

definition progressRead :: "progressReader \<Rightarrow> readEvent \<Rightarrow> progressReader" where
  "progressRead p ev =
     (let p1 = (if 0 < evN ev
                then report False (evNowData ev) (p\<lparr>bytesRead := bytesRead p + word_of_nat (evN ev)\<rparr>)
                else p)
      in if evErr ev = EOF then report True (evNowEOF ev) p1 else p1)"

definition progressClose :: "progressReader \<Rightarrow> Stream \<Rightarrow> Stream" where
  "progressClose p rc = StreamClose rc"

definition BytesRead :: "progressReader \<Rightarrow> int64" where
  "BytesRead p = bytesRead p"

text \<open>The reads a consumer makes on the wrapper, in order.\<close>

definition readAll :: "progressReader \<Rightarrow> readEvent list \<Rightarrow> progressReader" where
  "readAll p evs = foldl progressRead p evs"

section \<open>Destination store\<close>

text \<open>
  Modelled from the spec: the \<open>storage\<close> package with \<open>ObjectStore.HeadObject\<close> and
  \<open>ObjectStore.PutObject\<close> is not among the sources. The spec gives the store as
  \<open>head(key) -> (metadata mapping, error fails with NotFound)\<close> and
  \<open>put(key, byte stream, contentType, metadata mapping) -> error\<close>. The store of one bucket
  is a map from keys to objects. A call can also fail for a reason of its own (network,
  permissions); such a fault is an input of the call, \<open>Some\<close> of the error message. A put
  makes the reads of the stream on the wrapper it is given, and stores the object unless it
  fails.
\<close>

record StoredObject =
  objMetadata :: metadata
  objContentType :: string

type_synonym ObjectStore = "string \<Rightarrow> StoredObject option"

definition notFoundMessage :: string where
  "notFoundMessage = ''NotFound''"

definition HeadObject :: "ObjectStore \<Rightarrow> string option \<Rightarrow> string \<Rightarrow> metadata option \<times> string option" where
  "HeadObject store fault key =
     (case fault of
        Some msg \<Rightarrow> (None, Some msg)
      | None \<Rightarrow> (case store key of
                  None \<Rightarrow> (None, Some notFoundMessage)
                | Some ob \<Rightarrow> (Some (objMetadata ob), None)))"

definition PutObject ::
  "ObjectStore \<Rightarrow> string option \<Rightarrow> string \<Rightarrow> progressReader \<Rightarrow> Stream \<Rightarrow> string \<Rightarrow> metadata
     \<Rightarrow> string option \<times> ObjectStore \<times> progressReader" where
  "PutObject store fault key reader rc contentType md =
     (let reader' = readAll reader (streamReads rc)
      in case fault of
           Some msg \<Rightarrow> (Some msg, store, reader')
         | None \<Rightarrow> (None, store(key \<mapsto> \<lparr>objMetadata = md, objContentType = contentType\<rparr>), reader'))"

definition errorText :: "string option \<Rightarrow> string" where
  "errorText err = (case err of None \<Rightarrow> [] | Some msg \<Rightarrow> msg)"

definition headMetadata :: "metadata option \<Rightarrow> metadata" where
  "headMetadata h = (case h of None \<Rightarrow> [] | Some md \<Rightarrow> md)"

section \<open>Transfer of one item\<close>

text \<open>
  What the outside does while one item is processed: whether the context is cancelled at
  the item boundary (\<open>ctx.Err()\<close>), what \<open>GetStreamContext\<close> returns (an error, or the
  stream with its size hint), the faults of the two head calls and of the put, and the
  clock reading taken by \<open>newProgressReader\<close>.
\<close>

record ItemEnv =
  cancelled :: "string option"
  streamOpen :: "string + (Stream \<times> int64)"
  headPrimaryFault :: "string option"
  headLegacyFault :: "string option"
  putFault :: "string option"
  startTime :: int

text \<open>
  The outcome of one transfer: the returned error or the returned item with its skip
  flag, the store afterwards, the stream afterwards when one was opened (its \<open>closeCalls\<close>
  count the deferred \<open>Close\<close> calls that ran), and the progress wrapper when one was made.
\<close>

record Download =
  dlResult :: "string + (YouTubeImportedItem \<times> bool)"
  dlStore :: ObjectStore
  dlStream :: "Stream option"
  dlReader :: "progressReader option"

definition primaryKeyOf :: "string \<Rightarrow> Video \<Rightarrow> Format \<Rightarrow> string" where
  "primaryKeyOf pfx video format =
     (let primaryFilename = buildYouTubeFilename (Title video) format
      in if pfx \<noteq> [] then pfx @ primaryFilename else primaryFilename)"

definition legacyKeyOf :: "string \<Rightarrow> Video \<Rightarrow> Format \<Rightarrow> string" where
  "legacyKeyOf pfx video format =
     (let legacyFilename = buildYouTubeFilenameWithID (Title video) (ID video) format
      in if pfx \<noteq> [] then pfx @ legacyFilename else legacyFilename)"

definition newMetadata :: "Video \<Rightarrow> metadata" where
  "newMetadata video =
     (youtubeVideoIDMetadataKey, ID video)
       # (if Title video \<noteq> [] then [(youtubeVideoTitleMetadataKey, Title video)] else [])"

definition importedItem :: "Video \<Rightarrow> string \<Rightarrow> int64 \<Rightarrow> string \<Rightarrow> YouTubeImportedItem" where
  "importedItem video key sz contentType =
     \<lparr>ItemTitle = Title video, Key = key, ItemVideoID = ID video, SizeBytes = sz,
      ContentType = contentType\<rparr>"

text \<open>
  \<open>defer stream.Close()\<close> runs on every return after the stream was opened, and
  \<open>defer progressReader.Close()\<close>, registered later, runs before it on every return after
  the wrapper was made.
\<close>

definition downloadYouTubeVideo ::
  "(Format \<Rightarrow> Format \<Rightarrow> bool) \<Rightarrow> ObjectStore \<Rightarrow> string \<Rightarrow> ItemEnv \<Rightarrow> Video \<Rightarrow> bool \<Rightarrow> Download" where
  "downloadYouTubeVideo lessFn store pfx env video progress =
     (case selectYouTubeFormat lessFn video of
        Inl e \<Rightarrow> \<lparr>dlResult = Inl e, dlStore = store, dlStream = None, dlReader = None\<rparr>
      | Inr format0 \<Rightarrow>
        (case streamOpen env of
           Inl e \<Rightarrow> \<lparr>dlResult = Inl e, dlStore = store, dlStream = None, dlReader = None\<rparr>
         | Inr (stream, sizeHint) \<Rightarrow>
           (let format = (if ContentLength format0 = 0 \<and> 0 < sint sizeHint
                          then format0\<lparr>ContentLength := sizeHint\<rparr> else format0);
                contentType = contentTypeFromMime (MimeType format);
                primaryKey = primaryKeyOf pfx video format;
                legacyKey = legacyKeyOf pfx video format;
                (primaryHead, err) = HeadObject store (headPrimaryFault env) primaryKey
            in if err \<noteq> None \<and> \<not> isNotFoundError err
               then \<lparr>dlResult = Inl (errorText err), dlStore = store,
                     dlStream = Some (StreamClose stream), dlReader = None\<rparr>
               else if err = None \<and> metadataMatchesYouTubeVideo (headMetadata primaryHead) (ID video)
               then \<lparr>dlResult = Inr (importedItem video primaryKey 0 contentType, True),
                     dlStore = store, dlStream = Some (StreamClose stream), dlReader = None\<rparr>
               else
                 (let primaryHead = (if err \<noteq> None \<and> isNotFoundError err then None else primaryHead);
                      (legacyHead, err2) = HeadObject store (headLegacyFault env) legacyKey
                  in if err2 = None
                     then \<lparr>dlResult = Inr (importedItem video legacyKey 0 contentType, True),
                           dlStore = store, dlStream = Some (StreamClose stream), dlReader = None\<rparr>
                     else if \<not> isNotFoundError err2
                     then \<lparr>dlResult = Inl (errorText err2), dlStore = store,
                           dlStream = Some (StreamClose stream), dlReader = None\<rparr>
                     else
                       (let key = (if primaryHead \<noteq> None then legacyKey else primaryKey);
                            md = newMetadata video;
                            reader0 = newProgressReader (ContentLength format) progress (startTime env);
                            (putErr, store', reader) =
                               PutObject store (putFault env) key reader0 stream contentType md;
                            closed = StreamClose (progressClose reader stream)
                        in if putErr \<noteq> None
                           then \<lparr>dlResult = Inl (errorText putErr), dlStore = store',
                                 dlStream = Some closed, dlReader = Some reader\<rparr>
                           else
                             (let sz = BytesRead reader;
                                  sz = (if sz = 0 \<and> 0 < sint (ContentLength format)
                                          then ContentLength format else sz)
                              in \<lparr>dlResult = Inr (importedItem video key sz contentType, False),
                                  dlStore = store', dlStream = Some closed,
                                  dlReader = Some reader\<rparr>))))))"

section \<open>Item resolution\<close>

text \<open>
  What the video client answers: \<open>GetPlaylistContext\<close> gives a playlist (its entries,
  each with the answer \<open>VideoFromPlaylistEntryContext\<close> gives for it), the error
  \<open>ErrInvalidPlaylist\<close>, or another error; \<open>GetVideoContext\<close> gives a video or an error.
\<close>

datatype PlaylistResult =
    PlaylistFound "(PlaylistEntry \<times> (string + Video)) list"
  | NotAPlaylist string
  | PlaylistFailed string

fun videosFromPlaylist ::
  "(PlaylistEntry \<times> (string + Video)) list \<Rightarrow> Video list \<Rightarrow> YouTubeImportResult
     \<Rightarrow> Video list \<times> YouTubeImportResult" where
  "videosFromPlaylist [] videos result = (videos, result)"
| "videosFromPlaylist ((entry, answer) # entries) videos result =
     (case answer of
        Inl e \<Rightarrow>
          videosFromPlaylist entries videos
            (result\<lparr>Errors := Errors result
                       @ [\<lparr>ErrTitle = EntryTitle entry, ErrVideoID = EntryID entry, Error = e\<rparr>]\<rparr>)
      | Inr video \<Rightarrow> videosFromPlaylist entries (videos @ [video]) result)"

definition resolveYouTubeVideos ::
  "PlaylistResult \<Rightarrow> (string + Video) \<Rightarrow> YouTubeImportResult
     \<Rightarrow> string + (Video list \<times> string \<times> YouTubeImportResult)" where
  "resolveYouTubeVideos playlistAnswer videoAnswer result =
     (case playlistAnswer of
        PlaylistFound entries \<Rightarrow>
          (let (videos, result') = videosFromPlaylist entries [] (result\<lparr>Kind := ''playlist''\<rparr>)
           in Inr (videos, ''playlist'', result'))
      | PlaylistFailed e \<Rightarrow> Inl (''failed to load playlist: '' @ e)
      | NotAPlaylist e \<Rightarrow>
          (case videoAnswer of
             Inl ve \<Rightarrow> Inl (''failed to load video: '' @ ve)
           | Inr video \<Rightarrow> Inr ([video], ''video'', result)))"

section \<open>Batch\<close>

text \<open>
  The progress sink of the batch only observes: no value the batch returns or stores
  depends on it, and its events are not part of the model. The callback handed to each
  transfer is a closure, never \<open>nil\<close>.
\<close>

record YouTubeImportInput =
  URL :: string
  DestinationPrefix :: string

record World =
  bucketNameErr :: "string option"
  objectStoreErr :: "string option"
  playlistAnswer :: PlaylistResult
  videoAnswer :: "string + Video"
  itemEnv :: "nat \<Rightarrow> ItemEnv"

text \<open>The part of the loop body after the transfer: one of three ways to record it.\<close>

definition recordOutcome ::
  "YouTubeImportResult \<Rightarrow> Video \<Rightarrow> string + (YouTubeImportedItem \<times> bool) \<Rightarrow> YouTubeImportResult" where
  "recordOutcome result video outcome =
     (case outcome of
        Inl downloadErr \<Rightarrow>
          result\<lparr>Errors := Errors result
                    @ [\<lparr>ErrTitle = Title video, ErrVideoID = ID video, Error = downloadErr\<rparr>]\<rparr>
      | Inr (item, skipped) \<Rightarrow>
          if skipped then result\<lparr>Skipped := Skipped result + 1\<rparr>
          else result\<lparr>Items := Items result @ [item],
                      Imported := Imported result + 1,
                      TotalBytes := TotalBytes result + SizeBytes item\<rparr>)"

fun importLoop ::
  "(Format \<Rightarrow> Format \<Rightarrow> bool) \<Rightarrow> (nat \<Rightarrow> ItemEnv) \<Rightarrow> string \<Rightarrow> nat \<Rightarrow> Video list
     \<Rightarrow> YouTubeImportResult \<Rightarrow> ObjectStore \<Rightarrow> string option \<times> YouTubeImportResult \<times> ObjectStore" where
  "importLoop lessFn envs pfx i [] result store = (None, result, store)"
| "importLoop lessFn envs pfx i (video # videos) result store =
     (case cancelled (envs i) of
        Some e \<Rightarrow> (Some e, result, store)
      | None \<Rightarrow>
          (let d = downloadYouTubeVideo lessFn store pfx (envs i) video True
           in importLoop lessFn envs pfx (Suc i) videos
                (recordOutcome result video (dlResult d)) (dlStore d)))"

text \<open>
  The outcome of a batch: the fatal error or the result, the store afterwards, and whether
  the recomputation of the bucket size was started.
\<close>

record ImportOutcome =
  outResult :: "string + YouTubeImportResult"
  outStore :: ObjectStore
  outRecalc :: bool

definition ImportYouTube ::
  "(Format \<Rightarrow> Format \<Rightarrow> bool) \<Rightarrow> World \<Rightarrow> ObjectStore \<Rightarrow> YouTubeImportInput \<Rightarrow> ImportOutcome" where
  "ImportYouTube lessFn w store input =
     (let url = TrimSpace (URL input)
      in if url = [] then \<lparr>outResult = Inl ''youtube url is required'', outStore = store, outRecalc = False\<rparr>
         else case bucketNameErr w of
           Some e \<Rightarrow> \<lparr>outResult = Inl e, outStore = store, outRecalc = False\<rparr>
         | None \<Rightarrow>
           (case objectStoreErr w of
              Some e \<Rightarrow> \<lparr>outResult = Inl e, outStore = store, outRecalc = False\<rparr>
            | None \<Rightarrow>
              (let result = \<lparr>Kind = ''video'', Imported = 0, Skipped = 0, TotalBytes = 0,
                             Items = [], Errors = []\<rparr>;
                   pfx = normalizeObjectPrefix (DestinationPrefix input)
               in case resolveYouTubeVideos (playlistAnswer w) (videoAnswer w) result of
                    Inl e \<Rightarrow> \<lparr>outResult = Inl e, outStore = store, outRecalc = False\<rparr>
                  | Inr (videos, kind, result1) \<Rightarrow>
                      (let result2 = result1\<lparr>Kind := kind\<rparr>
                       in case importLoop lessFn (itemEnv w) pfx 0 videos result2 store of
                            (Some e, result3, store') \<Rightarrow>
                               \<lparr>outResult = Inl e, outStore = store', outRecalc = False\<rparr>
                          | (None, result3, store') \<Rightarrow>
                               \<lparr>outResult = Inr result3, outStore = store',
                                outRecalc = (0 < Imported result3)\<rparr>))))"

text \<open>The number of items the resolver yields: the playlist's entries, or the one video.\<close>

definition resolvedItems :: "World \<Rightarrow> nat" where
  "resolvedItems w =
     (case playlistAnswer w of PlaylistFound entries \<Rightarrow> length entries | _ \<Rightarrow> 1)"

text \<open>
  A fault injected into a head call is a failure of the call itself; the store's contract
  keeps the not-found answer for an absent object. The head calls of an item are honest
  when no injected fault reads as not-found.
\<close>

definition honestHeads :: "ItemEnv \<Rightarrow> bool" where
  "honestHeads env =
     (\<not> isNotFoundError (headPrimaryFault env) \<and> \<not> isNotFoundError (headLegacyFault env))"

section \<open>Example data\<close>

definition exFormatWebm :: Format where
  "exFormatWebm = \<lparr>MimeType = ''video/webm'', AudioChannels = 2, ContentLength = 0, ItagNo = 43,
     Bitrate = 900, Width = 640, Height = 360, FPS = 30\<rparr>"

definition exFormatMp4 :: Format where
  "exFormatMp4 = \<lparr>MimeType = ''video/mp4; codecs=avc1'', AudioChannels = 2, ContentLength = 0,
     ItagNo = 18, Bitrate = 500, Width = 640, Height = 360, FPS = 30\<rparr>"

definition exFormatMute :: Format where
  "exFormatMute = \<lparr>MimeType = ''video/mp4'', AudioChannels = 0, ContentLength = 0, ItagNo = 137,
     Bitrate = 4000, Width = 1920, Height = 1080, FPS = 30\<rparr>"

definition byBitrate :: "Format \<Rightarrow> Format \<Rightarrow> bool" where
  "byBitrate a b = (Bitrate b < Bitrate a)"

definition exReadFirst :: readEvent where
  "exReadFirst = \<lparr>evN = 600, evErr = NoError, evNowData = 100000000, evNowEOF = 0\<rparr>"

definition exReadLast :: readEvent where
  "exReadLast = \<lparr>evN = 400, evErr = EOF, evNowData = 200000000, evNowEOF = 200000001\<rparr>"

definition exVideo :: Video where
  "exVideo = \<lparr>ID = ''abc'', Title = ''My Song!'',
     Formats = [exFormatWebm, exFormatMute, exFormatMp4]\<rparr>"

definition exStream :: Stream where
  "exStream = \<lparr>streamReads = [exReadFirst, exReadLast], closeCalls = 0\<rparr>"

definition exEnv :: ItemEnv where
  "exEnv = \<lparr>cancelled = None, streamOpen = Inr (exStream, 1000), headPrimaryFault = None,
     headLegacyFault = None, putFault = None, startTime = 0\<rparr>"

definition exOtherObject :: StoredObject where
  "exOtherObject = \<lparr>objMetadata = [(''bucketbird-video-id'', ''zzz'')], objContentType = ''video/mp4''\<rparr>"


definition exVideoNoID :: Video where
  "exVideoNoID = \<lparr>ID = [], Title = ''My Song!'', Formats = [exFormatMp4]\<rparr>"

definition exEmptyTagObject :: StoredObject where
  "exEmptyTagObject = \<lparr>objMetadata = [(''Bucketbird-Video-Id'', [])], objContentType = ''video/mp4''\<rparr>"

definition exStoreEmptyTag :: ObjectStore where
  "exStoreEmptyTag = Map.empty(''media/My-Song.mp4'' \<mapsto> exEmptyTagObject,
                               ''media/My-Song-.mp4'' \<mapsto> exOtherObject)"

definition exInput :: YouTubeImportInput where
  "exInput = \<lparr>URL = ''https://youtu.be/abc'', DestinationPrefix = ''/media''\<rparr>"

definition exWorldSingle :: World where
  "exWorldSingle = \<lparr>bucketNameErr = None, objectStoreErr = None,
     playlistAnswer = NotAPlaylist ''invalid playlist'', videoAnswer = Inr exVideo,
     itemEnv = (\<lambda>i. exEnv)\<rparr>"

definition exWorldPlaylist :: World where
  "exWorldPlaylist = \<lparr>bucketNameErr = None, objectStoreErr = None,
     playlistAnswer = PlaylistFound
       [(\<lparr>EntryID = ''abc'', EntryTitle = ''My Song!''\<rparr>, Inr exVideo),
        (\<lparr>EntryID = ''gone'', EntryTitle = ''Private video''\<rparr>, Inl ''video is private''),
        (\<lparr>EntryID = ''abc'', EntryTitle = ''My Song!''\<rparr>, Inr exVideo)],
     videoAnswer = Inl ''not a video'',
     itemEnv = (\<lambda>i. exEnv)\<rparr>"

definition exPlaylistResult :: YouTubeImportResult where
  "exPlaylistResult =
     \<lparr>Kind = ''playlist'', Imported = 1, Skipped = 1, TotalBytes = 1000,
      Items = [importedItem exVideo ''media/My-Song.mp4'' 1000 ''video/mp4''],
      Errors = [\<lparr>ErrTitle = ''Private video'', ErrVideoID = ''gone'', Error = ''video is private''\<rparr>]\<rparr>"

definition exSingleResult :: YouTubeImportResult where
  "exSingleResult =
     \<lparr>Kind = ''video'', Imported = 1, Skipped = 0, TotalBytes = 1000,
      Items = [importedItem exVideo ''media/My-Song.mp4'' 1000 ''video/mp4''],
      Errors = []\<rparr>"

definition exVideoTwin :: Video where
  "exVideoTwin = \<lparr>ID = ''xyz'', Title = ''My  Song?'', Formats = [exFormatMp4]\<rparr>"

definition exWorldTwins :: World where
  "exWorldTwins = \<lparr>bucketNameErr = None, objectStoreErr = None,
     playlistAnswer = PlaylistFound
       [(\<lparr>EntryID = ''abc'', EntryTitle = ''My Song!''\<rparr>, Inr exVideo),
        (\<lparr>EntryID = ''xyz'', EntryTitle = ''My  Song?''\<rparr>, Inr exVideoTwin)],
     videoAnswer = Inl ''not a video'',
     itemEnv = (\<lambda>i. exEnv)\<rparr>"

definition exTwinsResult :: YouTubeImportResult where
  "exTwinsResult =
     \<lparr>Kind = ''playlist'', Imported = 2, Skipped = 0, TotalBytes = 2000,
      Items = [importedItem exVideo ''media/My-Song.mp4'' 1000 ''video/mp4'',
               importedItem exVideoTwin ''media/My-Song-xyz.mp4'' 1000 ''video/mp4''],
      Errors = []\<rparr>"

definition exVideoWebm :: Video where
  "exVideoWebm = \<lparr>ID = ''xyz'', Title = ''My  Song?'', Formats = [exFormatWebm]\<rparr>"

definition exWorldMixed :: World where
  "exWorldMixed = \<lparr>bucketNameErr = None, objectStoreErr = None,
     playlistAnswer = PlaylistFound
       [(\<lparr>EntryID = ''abc'', EntryTitle = ''My Song!''\<rparr>, Inr exVideo),
        (\<lparr>EntryID = ''xyz'', EntryTitle = ''My  Song?''\<rparr>, Inr exVideoWebm)],
     videoAnswer = Inl ''not a video'',
     itemEnv = (\<lambda>i. exEnv)\<rparr>"

definition exMixedResult :: YouTubeImportResult where
  "exMixedResult =
     \<lparr>Kind = ''playlist'', Imported = 2, Skipped = 0, TotalBytes = 2000,
      Items = [importedItem exVideo ''media/My-Song.mp4'' 1000 ''video/mp4'',
               importedItem exVideoWebm ''media/My-Song.webm'' 1000 ''video/webm''],
      Errors = []\<rparr>"

definition exEnvLying :: ItemEnv where
  "exEnvLying = exEnv\<lparr>headPrimaryFault := Some ''NotFound''\<rparr>"

definition exWorldLying :: World where
  "exWorldLying = \<lparr>bucketNameErr = None, objectStoreErr = None,
     playlistAnswer = PlaylistFound
       [(\<lparr>EntryID = ''abc'', EntryTitle = ''My Song!''\<rparr>, Inr exVideo),
        (\<lparr>EntryID = ''xyz'', EntryTitle = ''My  Song?''\<rparr>, Inr exVideoTwin)],
     videoAnswer = Inl ''not a video'',
     itemEnv = (\<lambda>i. if i = 1 then exEnvLying else exEnv)\<rparr>"

definition exLyingResult :: YouTubeImportResult where
  "exLyingResult =
     \<lparr>Kind = ''playlist'', Imported = 2, Skipped = 0, TotalBytes = 2000,
      Items = [importedItem exVideo ''media/My-Song.mp4'' 1000 ''video/mp4'',
               importedItem exVideoTwin ''media/My-Song.mp4'' 1000 ''video/mp4''],
      Errors = []\<rparr>"

section \<open>Properties\<close>

subsection \<open>Format selection\<close>

lemma set_insertFormat: "set (insertFormat lessFn x ys) = insert x (set ys)"
  by (induction ys) auto

lemma set_SortFormats: "set (SortFormats lessFn fs) = set fs"
  unfolding SortFormats_def by (induction fs) (simp_all add: set_insertFormat)

lemma hd_insertFormat_best:
  assumes asym: "\<And>a b. lessFn a b \<Longrightarrow> \<not> lessFn b a"
    and negtrans: "\<And>a b c. lessFn a c \<Longrightarrow> lessFn a b \<or> lessFn b c"
    and best: "\<forall>g\<in>set ys. \<not> lessFn g (hd ys)"
  shows "\<forall>g\<in>set (insertFormat lessFn x ys). \<not> lessFn g (hd (insertFormat lessFn x ys))"
proof (cases ys)
  case Nil
  then show ?thesis using asym by auto
next
  case (Cons y ys')
  show ?thesis
  proof (cases "lessFn y x")
    case True
    then show ?thesis using Cons best asym by (auto simp: set_insertFormat)
  next
    case False
    have "\<not> lessFn g x" if "g \<in> set ys" for g
    proof
      assume "lessFn g x"
      then have "lessFn g y \<or> lessFn y x" by (rule negtrans)
      with False best that Cons show False by auto
    qed
    then show ?thesis using Cons False asym by auto
  qed
qed

lemma hd_SortFormats_best:
  assumes asym: "\<And>a b. lessFn a b \<Longrightarrow> \<not> lessFn b a"
    and negtrans: "\<And>a b c. lessFn a c \<Longrightarrow> lessFn a b \<or> lessFn b c"
  shows "\<forall>g\<in>set (SortFormats lessFn fs). \<not> lessFn g (hd (SortFormats lessFn fs))"
proof (induction fs)
  case Nil
  then show ?case by (simp add: SortFormats_def)
next
  case (Cons f fs)
  have "SortFormats lessFn (f # fs) = insertFormat lessFn f (SortFormats lessFn fs)"
    by (simp add: SortFormats_def)
  with hd_insertFormat_best[of lessFn "SortFormats lessFn fs" f] asym negtrans Cons
  show ?case by metis
qed

lemma selectYouTubeFormat_pool:
  "selectYouTubeFormat lessFn v =
     (let pool = (if filter (\<lambda>f. Contains (MimeType f) ''mp4'') (WithAudioChannels (Formats v)) \<noteq> []
                  then filter (\<lambda>f. Contains (MimeType f) ''mp4'') (WithAudioChannels (Formats v))
                  else WithAudioChannels (Formats v))
      in if WithAudioChannels (Formats v) = [] then Inl noAudioMessage
         else Inr (hd (SortFormats lessFn pool)))"
proof -
  have ne: "SortFormats lessFn xs \<noteq> []" if "xs \<noteq> []" for xs
    using that set_SortFormats[of lessFn xs] by (metis set_empty)
  show ?thesis
    by (auto simp: selectYouTubeFormat_def Let_def split: list.splits dest: ne)
qed

text \<open>
  C5: format selection fails exactly when no format of the video carries audio. When it
  succeeds, the selected format carries audio and comes from the mp4 formats with audio
  when there are any, otherwise from all formats with audio; under a quality comparison
  that is a strict weak order, no format of that pool sorts ahead of it. The choice is a
  function of the video's formats alone.
\<close>

theorem selectYouTubeFormat_spec:
  assumes asym: "\<And>a b. lessFn a b \<Longrightarrow> \<not> lessFn b a"
    and negtrans: "\<And>a b c. lessFn a c \<Longrightarrow> lessFn a b \<or> lessFn b c"
  shows "((\<exists>e. selectYouTubeFormat lessFn v = Inl e) \<longleftrightarrow> \<not> (\<exists>f\<in>set (Formats v). 0 < AudioChannels f))
    \<and> (\<forall>f. selectYouTubeFormat lessFn v = Inr f \<longrightarrow>
          f \<in> set (Formats v) \<and> 0 < AudioChannels f
          \<and> (let withAudio = WithAudioChannels (Formats v);
                  mp4Formats = filter (\<lambda>g. Contains (MimeType g) ''mp4'') withAudio;
                  pool = (if mp4Formats \<noteq> [] then mp4Formats else withAudio)
              in f \<in> set pool \<and> (\<forall>g\<in>set pool. \<not> lessFn g f)))
    \<and> (\<forall>v'. Formats v' = Formats v \<longrightarrow> selectYouTubeFormat lessFn v' = selectYouTubeFormat lessFn v)"
proof (intro conjI allI impI)
  show "(\<exists>e. selectYouTubeFormat lessFn v = Inl e) \<longleftrightarrow> \<not> (\<exists>f\<in>set (Formats v). 0 < AudioChannels f)"
    by (auto simp: selectYouTubeFormat_pool Let_def WithAudioChannels_def filter_empty_conv)
next
  fix f assume sel: "selectYouTubeFormat lessFn v = Inr f"
  define withAudio where "withAudio = WithAudioChannels (Formats v)"
  define mp4Formats where "mp4Formats = filter (\<lambda>g. Contains (MimeType g) ''mp4'') withAudio"
  define pool where "pool = (if mp4Formats \<noteq> [] then mp4Formats else withAudio)"
  from sel have ne: "withAudio \<noteq> []" and f: "f = hd (SortFormats lessFn pool)"
    by (auto simp: selectYouTubeFormat_pool Let_def withAudio_def mp4Formats_def pool_def
        split: if_splits)
  have pool_ne: "pool \<noteq> []" using ne by (simp add: pool_def)
  then have "SortFormats lessFn pool \<noteq> []"
    using set_SortFormats[of lessFn pool] by (metis set_empty)
  then have "f \<in> set (SortFormats lessFn pool)" using f by simp
  then have in_pool: "f \<in> set pool" by (simp add: set_SortFormats)
  have best: "\<forall>g\<in>set pool. \<not> lessFn g f"
    using hd_SortFormats_best[of lessFn pool, OF asym negtrans] f
    by (simp add: set_SortFormats)
  have sub: "set pool \<subseteq> set withAudio" by (auto simp: pool_def mp4Formats_def)
  with in_pool have "f \<in> set withAudio" by blast
  then show "f \<in> set (Formats v)" and "0 < AudioChannels f"
    by (auto simp: withAudio_def WithAudioChannels_def)
  show "let withAudio = WithAudioChannels (Formats v);
            mp4Formats = filter (\<lambda>g. Contains (MimeType g) ''mp4'') withAudio;
            pool = (if mp4Formats \<noteq> [] then mp4Formats else withAudio)
        in f \<in> set pool \<and> (\<forall>g\<in>set pool. \<not> lessFn g f)"
    using in_pool best unfolding Let_def pool_def mp4Formats_def withAudio_def by blast
next
  fix v' :: Video assume "Formats v' = Formats v"
  then show "selectYouTubeFormat lessFn v' = selectYouTubeFormat lessFn v"
    by (simp add: selectYouTubeFormat_def)
qed

theorem selectYouTubeFormat_spec_witness:
  "selectYouTubeFormat byBitrate \<lparr>ID = ''abc'', Title = ''My Song!'',
       Formats = [exFormatWebm, exFormatMute, exFormatMp4]\<rparr> = Inr exFormatMp4
   \<and> 0 < AudioChannels exFormatMp4 \<and> \<not> byBitrate exFormatMp4 exFormatMp4"
proof -
  have a: "\<And>a b. byBitrate a b \<Longrightarrow> \<not> byBitrate b a" by (simp add: byBitrate_def)
  have n: "\<And>a b c. byBitrate a c \<Longrightarrow> byBitrate a b \<or> byBitrate b c"
    by (auto simp: byBitrate_def)
  have s: "selectYouTubeFormat byBitrate \<lparr>ID = ''abc'', Title = ''My Song!'',
       Formats = [exFormatWebm, exFormatMute, exFormatMp4]\<rparr> = Inr exFormatMp4"
    by (simp add: selectYouTubeFormat_def WithAudioChannels_def SortFormats_def
        exFormatWebm_def exFormatMute_def exFormatMp4_def)
  from selectYouTubeFormat_spec[of byBitrate "\<lparr>ID = ''abc'', Title = ''My Song!'',
       Formats = [exFormatWebm, exFormatMute, exFormatMp4]\<rparr>", OF a n] s
  show ?thesis by (simp add: Let_def)
qed

subsection \<open>Progress reporter\<close>

lemma callback_report: "callback (report force now p) = callback p"
  by (simp add: report_def Let_def)

lemma bytesRead_report: "bytesRead (report force now p) = bytesRead p"
  by (simp add: report_def Let_def)

lemma callback_progressRead: "callback (progressRead p ev) = callback p"
  by (simp add: progressRead_def Let_def callback_report)

lemma bytesRead_progressRead:
  "bytesRead (progressRead p ev) = bytesRead p + word_of_nat (evN ev)"
  by (simp add: progressRead_def Let_def bytesRead_report)

lemma callback_readAll: "callback (readAll p evs) = callback p"
  unfolding readAll_def by (induction evs arbitrary: p) (simp_all add: callback_progressRead)

lemma bytesRead_readAll:
  "bytesRead (readAll p evs) = bytesRead p + word_of_nat (sum_list (map evN evs))"
  unfolding readAll_def by (induction evs arbitrary: p) (simp_all add: bytesRead_progressRead)

lemma report_forced:
  assumes "callback p"
  shows "emitted (report True now p) \<noteq> []"
    and "sBytesRead (last (emitted (report True now p))) = bytesRead p"
  using assms by (simp_all add: report_def Let_def)

lemma progressRead_EOF:
  assumes cb: "callback p" and eof: "evErr ev = EOF"
  shows "emitted (progressRead p ev) \<noteq> []"
    and "sBytesRead (last (emitted (progressRead p ev))) = bytesRead p + word_of_nat (evN ev)"
proof -
  define q where "q = (if 0 < evN ev
      then report False (evNowData ev) (p\<lparr>bytesRead := bytesRead p + word_of_nat (evN ev)\<rparr>)
      else p)"
  have q: "callback q" "bytesRead q = bytesRead p + word_of_nat (evN ev)"
    using cb by (simp_all add: q_def callback_report bytesRead_report)
  have "progressRead p ev = report True (evNowEOF ev) q"
    using eof by (simp add: progressRead_def q_def Let_def)
  with report_forced[OF q(1), of "evNowEOF ev"] q(2)
  show "emitted (progressRead p ev) \<noteq> []"
    and "sBytesRead (last (emitted (progressRead p ev))) = bytesRead p + word_of_nat (evN ev)"
    by simp_all
qed

lemma sint_word_of_nat_small:
  assumes "n < 2 ^ 63"
  shows "sint (word_of_nat n :: 64 word) = int n"
proof -
  have "- (2 ^ 63) \<le> int n" by (rule order_trans[of _ 0]) simp_all
  moreover have "int n < 2 ^ 63"
    using assms by (metis of_nat_less_iff of_nat_numeral of_nat_power)
  ultimately have "signed_take_bit 63 (int n) = int n"
    by (simp add: signed_take_bit_int_eq_self)
  then show ?thesis by (simp add: signed_of_nat)
qed

text \<open>
  C6: with a callback registered, a sequence of reads whose last read returns end of
  stream ends with an emission, whatever the clock readings are; the last sample's
  \<open>bytesRead\<close> is the number of bytes read from the stream (as an \<open>int64\<close>, and as a
  number when the count is below \<open>2^63\<close>).
\<close>

theorem progressReader_final_sample:
  assumes "evErr ev = EOF"
  shows "(let p = readAll (newProgressReader tot True t0) (evs @ [ev]);
              n = sum_list (map evN (evs @ [ev]))
          in emitted p \<noteq> []
             \<and> sBytesRead (last (emitted p)) = word_of_nat n
             \<and> (n < 2 ^ 63 \<longrightarrow> sint (sBytesRead (last (emitted p))) = int n))"
proof -
  define q where "q = readAll (newProgressReader tot True t0) evs"
  have cb: "callback q"
    by (simp add: q_def callback_readAll newProgressReader_def)
  have br: "bytesRead q = word_of_nat (sum_list (map evN evs))"
    by (simp add: q_def bytesRead_readAll newProgressReader_def)
  have step: "readAll (newProgressReader tot True t0) (evs @ [ev]) = progressRead q ev"
    by (simp add: readAll_def q_def)
  have "emitted (progressRead q ev) \<noteq> []"
    and "sBytesRead (last (emitted (progressRead q ev)))
           = word_of_nat (sum_list (map evN (evs @ [ev])))"
    using progressRead_EOF[OF cb assms] br by simp_all
  then show ?thesis
    using sint_word_of_nat_small[of "sum_list (map evN (evs @ [ev]))"]
    by (simp add: step Let_def)
qed

theorem progressReader_final_sample_witness:
  "evErr exReadLast = EOF
   \<and> emitted (readAll (newProgressReader 1000 True 0) [exReadFirst, exReadLast])
       = [\<lparr>sBytesRead = 1000, sTotal = 1000, sSpeed = 1000 / (200000001 / 1000000000)\<rparr>]
   \<and> sint (sBytesRead (last (emitted
        (readAll (newProgressReader 1000 True 0) [exReadFirst, exReadLast])))) = 1000"
proof -
  have e: "evErr exReadLast = EOF" by (simp add: exReadLast_def)
  have n: "sum_list (map evN ([exReadFirst] @ [exReadLast])) = 1000"
    by (simp add: exReadFirst_def exReadLast_def)
  have s: "emitted (readAll (newProgressReader 1000 True 0) [exReadFirst, exReadLast])
       = [\<lparr>sBytesRead = 1000, sTotal = 1000, sSpeed = 1000 / (200000001 / 1000000000)\<rparr>]"
    by (simp add: readAll_def progressRead_def report_def newProgressReader_def
        exReadFirst_def exReadLast_def Let_def)
  from progressReader_final_sample[OF e, of 1000 0 "[exReadFirst]"] n e s
  show ?thesis by (simp add: Let_def)
qed

subsection \<open>Prefix normalisation\<close>

text \<open>
  C9: the normalised prefix of \<open>a///b\<close> is \<open>a//b/\<close>, which still has a doubled slash:
  one pass of \<open>ReplaceAll\<close> halves a run of slashes, it does not collapse it.
\<close>

theorem normalizeObjectPrefix_triple_slash:
  "normalizeObjectPrefix ''a///b'' = ''a//b/''
   \<and> Contains (normalizeObjectPrefix ''a///b'') ''//''"
  by code_simp

lemma last_dropWhile: "dropWhile P xs \<noteq> [] \<Longrightarrow> last (dropWhile P xs) = last xs"
  by (induction xs) (auto split: if_splits)

lemma Trim_ends:
  assumes "Trim s cutset \<noteq> []"
  shows "hd (Trim s cutset) \<notin> set cutset" and "last (Trim s cutset) \<notin> set cutset"
proof -
  define P where "P = (\<lambda>c. c \<in> set cutset)"
  define u where "u = dropWhile P s"
  define w where "w = dropWhile P (rev u)"
  have t: "Trim s cutset = rev w" by (simp add: Trim_def w_def u_def P_def)
  with assms have w: "w \<noteq> []" by simp
  then have u: "u \<noteq> []" by (auto simp: w_def)
  have "\<not> P (hd w)" using w unfolding w_def by (rule hd_dropWhile)
  then show "last (Trim s cutset) \<notin> set cutset" using w by (simp add: t last_rev P_def)
  have lw: "last w = last (rev u)"
    using w unfolding w_def by (rule last_dropWhile)
  have "\<not> P (hd u)" using u unfolding u_def by (rule hd_dropWhile)
  then show "hd (Trim s cutset) \<notin> set cutset"
    using w u lw by (simp add: t hd_rev last_rev P_def)
qed

text \<open>
  What does hold of every normalised prefix: it is empty, or it neither starts with a
  slash nor ends with two, and ends with one.
\<close>

lemma normalizeObjectPrefix_ends:
  "normalizeObjectPrefix p = []
   \<or> (hd (normalizeObjectPrefix p) \<noteq> CHR ''/''
      \<and> last (normalizeObjectPrefix p) = CHR ''/''
      \<and> butlast (normalizeObjectPrefix p) \<noteq> []
      \<and> last (butlast (normalizeObjectPrefix p)) \<noteq> CHR ''/'')"
  using Trim_ends[of "ReplaceAll (TrimPrefix (TrimSpace p) ''/'') ''//'' ''/''" "''/''"]
  by (auto simp: normalizeObjectPrefix_def Let_def)

subsection \<open>Identity metadata\<close>

lemma EqualFold_ascii:
  "\<forall>c\<in>set s. isAscii c \<Longrightarrow> EqualFold s t \<longleftrightarrow> ToLower s = ToLower t"
  by (induction s t rule: EqualFold.induct) (auto simp: ToLower_def)

lemma ToLower_youtubeVideoIDMetadataKey:
  "ToLower youtubeVideoIDMetadataKey = youtubeVideoIDMetadataKey"
  by code_simp

lemma metadataMatchesYouTubeVideo_iff:
  "metadataMatchesYouTubeVideo md videoID \<longleftrightarrow>
     md \<noteq> [] \<and> videoID \<noteq> []
     \<and> (\<exists>(key, val)\<in>set md. EqualFold key youtubeVideoIDMetadataKey \<and> val = videoID)"
  by (auto simp: metadataMatchesYouTubeVideo_def list_ex_iff)

subsection \<open>Keys\<close>

lemma primaryKeyOf_mime:
  "MimeType f = MimeType g \<Longrightarrow> primaryKeyOf pfx video f = primaryKeyOf pfx video g"
  by (simp add: primaryKeyOf_def buildYouTubeFilename_def)

lemma legacyKeyOf_mime:
  "MimeType f = MimeType g \<Longrightarrow> legacyKeyOf pfx video f = legacyKeyOf pfx video g"
  by (simp add: legacyKeyOf_def buildYouTubeFilenameWithID_def)

lemma legacyKey_neq_primaryKey: "legacyKeyOf pfx video f \<noteq> primaryKeyOf pfx video f"
proof
  assume "legacyKeyOf pfx video f = primaryKeyOf pfx video f"
  then have "length (legacyKeyOf pfx video f) = length (primaryKeyOf pfx video f)" by simp
  then show False
    by (simp add: legacyKeyOf_def primaryKeyOf_def buildYouTubeFilename_def
        buildYouTubeFilenameWithID_def Let_def split: if_splits)
qed

lemma isNotFoundError_notFoundMessage: "isNotFoundError (Some notFoundMessage)"
  by code_simp

lemma isNotFoundError_None: "\<not> isNotFoundError None"
  by (simp add: isNotFoundError_def)

subsection \<open>Paths of one transfer\<close>


lemma download_skip_legacy:
  assumes sel: "selectYouTubeFormat lessFn video = Inr format"
    and opn: "streamOpen env = Inr (stream, sizeHint)"
    and hp: "headPrimaryFault env = None"
    and hl: "headLegacyFault env = None"
    and untagged: "\<not> (case store (primaryKeyOf pfx video format) of None \<Rightarrow> False
                       | Some ob \<Rightarrow> metadataMatchesYouTubeVideo (objMetadata ob) (ID video))"
    and leg: "store (legacyKeyOf pfx video format) = Some ob'"
  shows "downloadYouTubeVideo lessFn store pfx env video progress =
     \<lparr>dlResult = Inr (importedItem video (legacyKeyOf pfx video format) 0
                         (contentTypeFromMime (MimeType format)), True),
      dlStore = store, dlStream = Some (StreamClose stream), dlReader = None\<rparr>"
proof -
  have k: "primaryKeyOf pfx video (format\<lparr>ContentLength := sizeHint\<rparr>) = primaryKeyOf pfx video format"
    by (rule primaryKeyOf_mime) simp
  have l: "legacyKeyOf pfx video (format\<lparr>ContentLength := sizeHint\<rparr>) = legacyKeyOf pfx video format"
    by (rule legacyKeyOf_mime) simp
  show ?thesis
    using sel opn hp hl untagged leg
    by (simp add: downloadYouTubeVideo_def Let_def k l HeadObject_def headMetadata_def
        isNotFoundError_None isNotFoundError_notFoundMessage split: option.splits)
qed

lemma bytesRead_newProgressReader: "bytesRead (newProgressReader tot cb now) = 0"
  by (simp add: newProgressReader_def)

lemma download_write:
  assumes sel: "selectYouTubeFormat lessFn video = Inr format"
    and opn: "streamOpen env = Inr (stream, sizeHint)"
    and hp: "headPrimaryFault env = None"
    and hl: "headLegacyFault env = None"
    and untagged: "\<not> (case store (primaryKeyOf pfx video format) of None \<Rightarrow> False
                       | Some ob \<Rightarrow> metadataMatchesYouTubeVideo (objMetadata ob) (ID video))"
    and leg: "store (legacyKeyOf pfx video format) = None"
  shows "(let key = (if store (primaryKeyOf pfx video format) \<noteq> None
                     then legacyKeyOf pfx video format else primaryKeyOf pfx video format);
              len = (if ContentLength format = 0 \<and> 0 < sint sizeHint
                     then sizeHint else ContentLength format);
              reader = readAll (newProgressReader len progress (startTime env)) (streamReads stream);
              contentType = contentTypeFromMime (MimeType format);
              d = downloadYouTubeVideo lessFn store pfx env video progress
          in dlReader d = Some reader
             \<and> dlStream d = Some (StreamClose (StreamClose stream))
             \<and> (case putFault env of
                  Some e \<Rightarrow> dlResult d = Inl e \<and> dlStore d = store
                | None \<Rightarrow>
                    dlResult d = Inr (importedItem video key
                        (if bytesRead reader = 0 \<and> 0 < sint len then len else bytesRead reader)
                        contentType, False)
                    \<and> dlStore d = store(key \<mapsto> \<lparr>objMetadata = newMetadata video,
                                                  objContentType = contentType\<rparr>)))"
proof -
  have k: "primaryKeyOf pfx video (format\<lparr>ContentLength := sizeHint\<rparr>) = primaryKeyOf pfx video format"
    by (rule primaryKeyOf_mime) simp
  have l: "legacyKeyOf pfx video (format\<lparr>ContentLength := sizeHint\<rparr>) = legacyKeyOf pfx video format"
    by (rule legacyKeyOf_mime) simp
  show ?thesis
  proof (cases "store (primaryKeyOf pfx video format)")
    case None
    then show ?thesis
      using sel opn hp hl leg
      by (simp add: downloadYouTubeVideo_def Let_def k l HeadObject_def headMetadata_def
        PutObject_def progressClose_def BytesRead_def errorText_def bytesRead_readAll bytesRead_newProgressReader
        isNotFoundError_None isNotFoundError_notFoundMessage split: option.splits)
  next
    case (Some ob)
    then show ?thesis
      using sel opn hp hl untagged leg
      by (simp add: downloadYouTubeVideo_def Let_def k l HeadObject_def headMetadata_def
        PutObject_def progressClose_def BytesRead_def errorText_def bytesRead_readAll bytesRead_newProgressReader
        isNotFoundError_None isNotFoundError_notFoundMessage split: option.splits)
  qed
qed



lemma exVideo_format: "selectYouTubeFormat byBitrate exVideo = Inr exFormatMp4"
  by code_simp

lemma exVideo_primaryKey: "primaryKeyOf ''media/'' exVideo exFormatMp4 = ''media/My-Song.mp4''"
  by code_simp


lemma exVideo_contentType: "contentTypeFromMime (MimeType exFormatMp4) = ''video/mp4''"
  by code_simp



subsection \<open>Skips and closes of one transfer\<close>

lemma effective_format:
  "MimeType (if c then f\<lparr>ContentLength := x\<rparr> else f) = MimeType f"
  "primaryKeyOf pfx video (if c then f\<lparr>ContentLength := x\<rparr> else f) = primaryKeyOf pfx video f"
  "legacyKeyOf pfx video (if c then f\<lparr>ContentLength := x\<rparr> else f) = legacyKeyOf pfx video f"
  "ContentLength (if c then f\<lparr>ContentLength := x\<rparr> else f) = (if c then x else ContentLength f)"
  by (simp_all add: primaryKeyOf_def legacyKeyOf_def buildYouTubeFilename_def
      buildYouTubeFilenameWithID_def)

lemma PutObject_parts:
  "fst (PutObject store fault key reader rc contentType md) = fault"
  "fst (snd (PutObject store fault key reader rc contentType md)) =
     (case fault of Some msg \<Rightarrow> store
      | None \<Rightarrow> store(key \<mapsto> \<lparr>objMetadata = md, objContentType = contentType\<rparr>))"
  "snd (snd (PutObject store fault key reader rc contentType md)) = readAll reader (streamReads rc)"
  by (simp_all add: PutObject_def Let_def split: option.splits)

lemma download_opened:
  fixes store :: ObjectStore and pfx :: string and progress :: bool
  assumes sel: "selectYouTubeFormat lessFn video = Inr format"
    and opn: "streamOpen env = Inr (stream, sizeHint)"
  defines "pk \<equiv> primaryKeyOf pfx video format"
    and "lk \<equiv> legacyKeyOf pfx video format"
    and "ct \<equiv> contentTypeFromMime (MimeType format)"
    and "len \<equiv> (if ContentLength format = 0 \<and> 0 < sint sizeHint then sizeHint
                 else ContentLength format)"
  defines "h1 \<equiv> fst (HeadObject store (headPrimaryFault env) pk)"
    and "e1 \<equiv> snd (HeadObject store (headPrimaryFault env) pk)"
    and "e2 \<equiv> snd (HeadObject store (headLegacyFault env) lk)"
    and "rd \<equiv> readAll (newProgressReader len progress (startTime env)) (streamReads stream)"
  defines "key \<equiv> (if (if e1 \<noteq> None \<and> isNotFoundError e1 then None else h1) \<noteq> None
                   then lk else pk)"
  shows "downloadYouTubeVideo lessFn store pfx env video progress =
     (if e1 \<noteq> None \<and> \<not> isNotFoundError e1
      then \<lparr>dlResult = Inl (errorText e1), dlStore = store,
            dlStream = Some (StreamClose stream), dlReader = None\<rparr>
      else if e1 = None \<and> metadataMatchesYouTubeVideo (headMetadata h1) (ID video)
      then \<lparr>dlResult = Inr (importedItem video pk 0 ct, True), dlStore = store,
            dlStream = Some (StreamClose stream), dlReader = None\<rparr>
      else if e2 = None
      then \<lparr>dlResult = Inr (importedItem video lk 0 ct, True), dlStore = store,
            dlStream = Some (StreamClose stream), dlReader = None\<rparr>
      else if \<not> isNotFoundError e2
      then \<lparr>dlResult = Inl (errorText e2), dlStore = store,
            dlStream = Some (StreamClose stream), dlReader = None\<rparr>
      else (case putFault env of
              Some msg \<Rightarrow> \<lparr>dlResult = Inl msg, dlStore = store,
                            dlStream = Some (StreamClose (StreamClose stream)), dlReader = Some rd\<rparr>
            | None \<Rightarrow>
                \<lparr>dlResult = Inr (importedItem video key
                      (if bytesRead rd = 0 \<and> 0 < sint len then len else bytesRead rd) ct, False),
                 dlStore = store(key \<mapsto> \<lparr>objMetadata = newMetadata video, objContentType = ct\<rparr>),
                 dlStream = Some (StreamClose (StreamClose stream)), dlReader = Some rd\<rparr>))"
  unfolding pk_def lk_def ct_def len_def h1_def e1_def e2_def rd_def key_def
  by (cases "putFault env")
     (simp_all add: downloadYouTubeVideo_def sel opn Let_def effective_format case_prod_beta
      PutObject_parts progressClose_def BytesRead_def errorText_def)

lemma download_unopened:
  assumes "selectYouTubeFormat lessFn video = Inl e \<or> streamOpen env = Inl e"
  shows "\<exists>e'. downloadYouTubeVideo lessFn store pfx env video progress =
           \<lparr>dlResult = Inl e', dlStore = store, dlStream = None, dlReader = None\<rparr>"
  using assms by (auto simp: downloadYouTubeVideo_def split: sum.splits)

lemma download_closeCalls:
  assumes sel: "selectYouTubeFormat lessFn video = Inr format"
    and opn: "streamOpen env = Inr (stream, sizeHint)"
  shows "\<exists>s. dlStream (downloadYouTubeVideo lessFn store pfx env video progress) = Some s
           \<and> closeCalls s = closeCalls stream
                 + (if dlReader (downloadYouTubeVideo lessFn store pfx env video progress) = None
                    then 1 else 2)"
  unfolding download_opened[OF sel opn, of store pfx progress]
  by (cases "putFault env") (simp_all add: StreamClose_def)

lemma download_skip_cases:
  assumes skip: "dlResult (downloadYouTubeVideo lessFn store pfx env video progress) = Inr (item, True)"
  shows "\<exists>format. selectYouTubeFormat lessFn video = Inr format
           \<and> SizeBytes item = 0
           \<and> dlStore (downloadYouTubeVideo lessFn store pfx env video progress) = store
           \<and> dlReader (downloadYouTubeVideo lessFn store pfx env video progress) = None
           \<and> ((Key item = primaryKeyOf pfx video format
                \<and> metadataMatchesYouTubeVideo
                     (headMetadata (fst (HeadObject store (headPrimaryFault env)
                         (primaryKeyOf pfx video format)))) (ID video))
               \<or> Key item = legacyKeyOf pfx video format)"
proof (cases "selectYouTubeFormat lessFn video")
  case (Inl e)
  with skip download_unopened[of lessFn video e env store pfx progress]
  show ?thesis by auto
next
  case sel: (Inr format)
  show ?thesis
  proof (cases "streamOpen env")
    case (Inl e)
    with skip download_unopened[of lessFn video e env store pfx progress]
    show ?thesis by auto
  next
    case opn: (Inr so)
    obtain stream sizeHint where so: "so = (stream, sizeHint)" by (cases so)
    define d where "d = downloadYouTubeVideo lessFn store pfx env video progress"
    define h1 where "h1 = fst (HeadObject store (headPrimaryFault env) (primaryKeyOf pfx video format))"
    define e1 where "e1 = snd (HeadObject store (headPrimaryFault env) (primaryKeyOf pfx video format))"
    define e2 where "e2 = snd (HeadObject store (headLegacyFault env) (legacyKeyOf pfx video format))"
    define A where "A \<longleftrightarrow> e1 \<noteq> None \<and> \<not> isNotFoundError e1"
    define B where "B \<longleftrightarrow> e1 = None \<and> metadataMatchesYouTubeVideo (headMetadata h1) (ID video)"
    define C where "C \<longleftrightarrow> e2 = None"
    define E where "E \<longleftrightarrow> \<not> isNotFoundError e2"
    note D = download_opened[OF sel opn[unfolded so], of store pfx progress,
        folded d_def h1_def e1_def e2_def, folded A_def B_def C_def E_def]
    have s: "dlResult d = Inr (item, True)" using skip by (simp add: d_def)
    have "SizeBytes item = 0 \<and> dlStore d = store \<and> dlReader d = None
           \<and> ((Key item = primaryKeyOf pfx video format \<and> B)
               \<or> Key item = legacyKeyOf pfx video format)"
    proof (cases A)
      case True
      with s D show ?thesis by simp
    next
      case nA: False
      show ?thesis
      proof (cases B)
        case True
        with s D nA show ?thesis by (auto simp: importedItem_def)
      next
        case nB: False
        show ?thesis
        proof (cases C)
          case True
          with s D nA nB show ?thesis by (auto simp: importedItem_def)
        next
          case nC: False
          show ?thesis
          proof (cases E)
            case True
            with s D nA nB nC show ?thesis by simp
          next
            case nE: False
            with s D nA nB nC show ?thesis by (cases "putFault env") simp_all
          qed
        qed
      qed
    qed
    then show ?thesis using sel unfolding d_def B_def h1_def by blast
  qed
qed

lemma honest_head_absent:
  assumes "\<not> isNotFoundError fault"
    and "isNotFoundError (snd (HeadObject store fault key))"
  shows "store key = None \<and> fst (HeadObject store fault key) = None"
  using assms isNotFoundError_None
  by (cases fault; cases "store key") (auto simp: HeadObject_def)

lemma honest_head_present:
  assumes "snd (HeadObject store fault key) = None"
  shows "\<exists>ob. store key = Some ob \<and> fst (HeadObject store fault key) = Some (objMetadata ob)"
  using assms by (cases fault; cases "store key") (auto simp: HeadObject_def)

lemma download_store_effect:
  assumes honest: "honestHeads env"
  shows "(\<forall>item. dlResult (downloadYouTubeVideo lessFn store pfx env video progress) = Inr (item, False)
            \<longrightarrow> store (Key item) = None
                \<and> (\<exists>ob. dlStore (downloadYouTubeVideo lessFn store pfx env video progress)
                           = store(Key item \<mapsto> ob)))
       \<and> ((\<forall>item. dlResult (downloadYouTubeVideo lessFn store pfx env video progress) \<noteq> Inr (item, False))
            \<longrightarrow> dlStore (downloadYouTubeVideo lessFn store pfx env video progress) = store)"
proof (cases "selectYouTubeFormat lessFn video")
  case (Inl e)
  with download_unopened[of lessFn video e env store pfx progress]
  show ?thesis by auto
next
  case sel: (Inr format)
  show ?thesis
  proof (cases "streamOpen env")
    case (Inl e)
    with download_unopened[of lessFn video e env store pfx progress]
    show ?thesis by auto
  next
    case opn: (Inr so)
    obtain stream sizeHint where so: "so = (stream, sizeHint)" by (cases so)
    define pk where "pk = primaryKeyOf pfx video format"
    define lk where "lk = legacyKeyOf pfx video format"
    define d where "d = downloadYouTubeVideo lessFn store pfx env video progress"
    define h1 where "h1 = fst (HeadObject store (headPrimaryFault env) pk)"
    define e1 where "e1 = snd (HeadObject store (headPrimaryFault env) pk)"
    define e2 where "e2 = snd (HeadObject store (headLegacyFault env) lk)"
    define A where "A \<longleftrightarrow> e1 \<noteq> None \<and> \<not> isNotFoundError e1"
    define B where "B \<longleftrightarrow> e1 = None \<and> metadataMatchesYouTubeVideo (headMetadata h1) (ID video)"
    define C where "C \<longleftrightarrow> e2 = None"
    define E where "E \<longleftrightarrow> \<not> isNotFoundError e2"
    define key where "key = (if (if e1 \<noteq> None \<and> isNotFoundError e1 then None else h1) \<noteq> None
                   then lk else pk)"
    note D = download_opened[OF sel opn[unfolded so], of store pfx progress,
        folded pk_def lk_def, folded d_def h1_def e1_def e2_def, folded key_def A_def B_def C_def E_def]
    have goal: "(\<forall>item. dlResult d = Inr (item, False)
            \<longrightarrow> store (Key item) = None \<and> (\<exists>ob. dlStore d = store(Key item \<mapsto> ob)))
       \<and> ((\<forall>item. dlResult d \<noteq> Inr (item, False)) \<longrightarrow> dlStore d = store)"
    proof (cases "A \<or> B \<or> C \<or> E")
      case True
      then consider A | "\<not> A" B | "\<not> A" "\<not> B" C | "\<not> A" "\<not> B" "\<not> C" E by blast
      then show ?thesis
        by cases (simp_all add: D)
    next
      case False
      then have nA: "\<not> A" and nB: "\<not> B" and nC: "\<not> C" and nE: "\<not> E" by simp_all
      have hl: "\<not> isNotFoundError (headLegacyFault env)"
        and hp: "\<not> isNotFoundError (headPrimaryFault env)"
        using honest by (simp_all add: honestHeads_def)
      from nE have "isNotFoundError e2" by (simp add: E_def)
      with honest_head_absent[OF hl, of store lk] have lk_free: "store lk = None"
        by (simp add: e2_def)
      have key_free: "store key = None"
      proof (cases "e1 = None")
        case True
        with honest_head_present[of store "headPrimaryFault env" pk]
        have "h1 \<noteq> None" by (auto simp: e1_def h1_def)
        with True have "key = lk" by (simp add: key_def)
        with lk_free show ?thesis by simp
      next
        case False
        with nA have nf: "isNotFoundError e1" by (simp add: A_def)
        with honest_head_absent[OF hp, of store pk] have "store pk = None"
          by (simp add: e1_def)
        moreover from nf False have "key = pk" by (simp add: key_def)
        ultimately show ?thesis by simp
      qed
      show ?thesis
        using nA nB nC nE key_free
        by (cases "putFault env") (auto simp: D importedItem_def)
    qed
    then show ?thesis unfolding d_def .
  qed
qed

text \<open>
  C10: the metadata of an object matches a video when it is not empty, the video's ID is
  not empty, and some entry has a key equal to the identity key up to case folding (for
  an ASCII key: equal after lowering the letters) and the video's ID as its value. So a
  video with an empty ID is never skipped on the strength of the object at its primary
  key: whenever it is skipped, it is with the legacy key, which differs from the primary.
\<close>

theorem identity_metadata_matching:
  "(metadataMatchesYouTubeVideo md videoID \<longleftrightarrow>
      md \<noteq> [] \<and> videoID \<noteq> []
      \<and> (\<exists>(key, val)\<in>set md. EqualFold key youtubeVideoIDMetadataKey \<and> val = videoID))
   \<and> (\<forall>key. (\<forall>c\<in>set key. isAscii c) \<longrightarrow>
          (EqualFold key youtubeVideoIDMetadataKey \<longleftrightarrow> ToLower key = youtubeVideoIDMetadataKey))
   \<and> \<not> metadataMatchesYouTubeVideo [] videoID
   \<and> \<not> metadataMatchesYouTubeVideo md []
   \<and> (ID video = [] \<longrightarrow>
        (\<forall>item. dlResult (downloadYouTubeVideo lessFn store pfx env video progress) = Inr (item, True)
           \<longrightarrow> (\<exists>format. selectYouTubeFormat lessFn video = Inr format
                    \<and> Key item = legacyKeyOf pfx video format
                    \<and> Key item \<noteq> primaryKeyOf pfx video format)))"
proof (intro conjI allI impI)
  show "metadataMatchesYouTubeVideo md videoID \<longleftrightarrow>
      md \<noteq> [] \<and> videoID \<noteq> []
      \<and> (\<exists>(key, val)\<in>set md. EqualFold key youtubeVideoIDMetadataKey \<and> val = videoID)"
    by (rule metadataMatchesYouTubeVideo_iff)
next
  fix key :: string assume "\<forall>c\<in>set key. isAscii c"
  then show "EqualFold key youtubeVideoIDMetadataKey \<longleftrightarrow> ToLower key = youtubeVideoIDMetadataKey"
    by (simp add: EqualFold_ascii ToLower_youtubeVideoIDMetadataKey)
next
  show "\<not> metadataMatchesYouTubeVideo [] videoID"
    by (simp add: metadataMatchesYouTubeVideo_def)
next
  show "\<not> metadataMatchesYouTubeVideo md []"
    by (simp add: metadataMatchesYouTubeVideo_def)
next
  fix item
  assume noid: "ID video = []"
    and skip: "dlResult (downloadYouTubeVideo lessFn store pfx env video progress) = Inr (item, True)"
  from download_skip_cases[OF skip] obtain format where
    sel: "selectYouTubeFormat lessFn video = Inr format"
    and k: "(Key item = primaryKeyOf pfx video format
                \<and> metadataMatchesYouTubeVideo
                     (headMetadata (fst (HeadObject store (headPrimaryFault env)
                         (primaryKeyOf pfx video format)))) (ID video))
               \<or> Key item = legacyKeyOf pfx video format"
    by blast
  from k noid have "Key item = legacyKeyOf pfx video format"
    by (auto simp: metadataMatchesYouTubeVideo_def)
  with sel legacyKey_neq_primaryKey[of pfx video format]
  show "\<exists>format. selectYouTubeFormat lessFn video = Inr format
                    \<and> Key item = legacyKeyOf pfx video format
                    \<and> Key item \<noteq> primaryKeyOf pfx video format"
    by auto
qed

lemma exVideoNoID_format: "selectYouTubeFormat byBitrate exVideoNoID = Inr exFormatMp4"
  by code_simp

lemma exVideoNoID_primaryKey: "primaryKeyOf ''media/'' exVideoNoID exFormatMp4 = ''media/My-Song.mp4''"
  by code_simp

lemma exVideoNoID_legacyKey: "legacyKeyOf ''media/'' exVideoNoID exFormatMp4 = ''media/My-Song-.mp4''"
  by code_simp

lemma exEmptyTag_key: "EqualFold ''Bucketbird-Video-Id'' youtubeVideoIDMetadataKey"
  by code_simp

theorem identity_metadata_matching_witness:
  "ID exVideoNoID = []
   \<and> list_all isAscii ''Bucketbird-Video-Id''
   \<and> ToLower ''Bucketbird-Video-Id'' = youtubeVideoIDMetadataKey
   \<and> exStoreEmptyTag ''media/My-Song.mp4'' = Some exEmptyTagObject
   \<and> objMetadata exEmptyTagObject = [(''Bucketbird-Video-Id'', [])]
   \<and> dlResult (downloadYouTubeVideo byBitrate exStoreEmptyTag ''media/'' exEnv exVideoNoID True)
       = Inr (importedItem exVideoNoID ''media/My-Song-.mp4'' 0 ''video/mp4'', True)
   \<and> primaryKeyOf ''media/'' exVideoNoID exFormatMp4 \<noteq> ''media/My-Song-.mp4''"
proof -
  have opn: "streamOpen exEnv = Inr (exStream, 1000)" by (simp add: exEnv_def)
  have hp: "headPrimaryFault exEnv = None" by (simp add: exEnv_def)
  have hl: "headLegacyFault exEnv = None" by (simp add: exEnv_def)
  have noid: "ID exVideoNoID = []" by (simp add: exVideoNoID_def)
  have asc: "\<forall>c\<in>set ''Bucketbird-Video-Id''. isAscii c" by (simp add: isAscii_def)
  have p: "exStoreEmptyTag ''media/My-Song.mp4'' = Some exEmptyTagObject"
    by (simp add: exStoreEmptyTag_def)
  have l: "exStoreEmptyTag ''media/My-Song-.mp4'' = Some exOtherObject"
    by (simp add: exStoreEmptyTag_def)
  have un: "\<not> (case exStoreEmptyTag (primaryKeyOf ''media/'' exVideoNoID exFormatMp4) of None \<Rightarrow> False
                | Some ob \<Rightarrow> metadataMatchesYouTubeVideo (objMetadata ob) (ID exVideoNoID))"
    by (simp add: exVideoNoID_primaryKey p noid metadataMatchesYouTubeVideo_def)
  have d: "dlResult (downloadYouTubeVideo byBitrate exStoreEmptyTag ''media/'' exEnv exVideoNoID True)
       = Inr (importedItem exVideoNoID ''media/My-Song-.mp4'' 0 ''video/mp4'', True)"
    using download_skip_legacy[where store = exStoreEmptyTag and pfx = "''media/''"
        and ob' = exOtherObject and progress = True, OF exVideoNoID_format opn hp hl un] l
    by (simp add: exVideoNoID_legacyKey exVideo_contentType)
  note T = identity_metadata_matching[where video = exVideoNoID and lessFn = byBitrate
      and store = exStoreEmptyTag and pfx = "''media/''" and env = exEnv and progress = True
      and md = "objMetadata exEmptyTagObject" and videoID = "ID exVideoNoID"]
  from T asc have "EqualFold ''Bucketbird-Video-Id'' youtubeVideoIDMetadataKey
      \<longleftrightarrow> ToLower ''Bucketbird-Video-Id'' = youtubeVideoIDMetadataKey"
    by blast
  with exEmptyTag_key have tl: "ToLower ''Bucketbird-Video-Id'' = youtubeVideoIDMetadataKey"
    by simp
  from T noid d have "\<exists>format. selectYouTubeFormat byBitrate exVideoNoID = Inr format
      \<and> Key (importedItem exVideoNoID ''media/My-Song-.mp4'' 0 ''video/mp4'')
           \<noteq> primaryKeyOf ''media/'' exVideoNoID format"
    by blast
  then have ne: "primaryKeyOf ''media/'' exVideoNoID exFormatMp4 \<noteq> ''media/My-Song-.mp4''"
    using exVideoNoID_format by (auto simp: importedItem_def)
  show ?thesis
    using noid asc tl p d ne by (simp add: exEmptyTagObject_def list_all_iff)
qed

subsection \<open>Closing the stream\<close>

text \<open>
  C7: a transfer that reaches the put closes the underlying stream twice. For the example
  video, stream and empty store the transfer succeeds, and the stream, opened with no
  \<open>Close\<close> call made, has received two: one through the wrapper's deferred \<open>Close\<close>, one
  from the deferred \<open>stream.Close()\<close>.
\<close>

theorem stream_closed_twice_after_put:
  "closeCalls exStream = 0
   \<and> streamOpen exEnv = Inr (exStream, 1000)
   \<and> dlResult (downloadYouTubeVideo byBitrate Map.empty ''media/'' exEnv exVideo True)
       = Inr (importedItem exVideo ''media/My-Song.mp4'' 1000 ''video/mp4'', False)
   \<and> map_option closeCalls
        (dlStream (downloadYouTubeVideo byBitrate Map.empty ''media/'' exEnv exVideo True)) = Some 2"
proof -
  have opn: "streamOpen exEnv = Inr (exStream, 1000)" by (simp add: exEnv_def)
  have hp: "headPrimaryFault exEnv = None" by (simp add: exEnv_def)
  have hl: "headLegacyFault exEnv = None" by (simp add: exEnv_def)
  have pf: "putFault exEnv = None" by (simp add: exEnv_def)
  have c0: "closeCalls exStream = 0" by (simp add: exStream_def)
  have len: "ContentLength exFormatMp4 = 0" by (simp add: exFormatMp4_def)
  have n: "sum_list (map evN (streamReads exStream)) = 1000"
    by (simp add: exStream_def exReadFirst_def exReadLast_def)
  from download_write[where store = Map.empty and pfx = "''media/''" and progress = True,
      OF exVideo_format opn hp hl]
  show ?thesis
    using opn pf c0 len n
    by (simp add: Let_def exVideo_primaryKey exVideo_contentType bytesRead_readAll
        bytesRead_newProgressReader StreamClose_def)
qed

subsection \<open>The loop\<close>

lemma recordOutcome_count:
  "Imported (recordOutcome r v out) + Skipped (recordOutcome r v out)
     + length (Errors (recordOutcome r v out))
   = Suc (Imported r + Skipped r + length (Errors r))"
  by (auto simp: recordOutcome_def split: sum.splits)

lemma recordOutcome_Kind: "Kind (recordOutcome r v out) = Kind r"
  by (auto simp: recordOutcome_def split: sum.splits)

lemma recordOutcome_bytes:
  assumes "TotalBytes r = sum_list (map SizeBytes (Items r))" and "length (Items r) = Imported r"
  shows "TotalBytes (recordOutcome r v out) = sum_list (map SizeBytes (Items (recordOutcome r v out)))"
    and "length (Items (recordOutcome r v out)) = Imported (recordOutcome r v out)"
  using assms by (auto simp: recordOutcome_def split: sum.splits)

lemma recordOutcome_Errors: "\<exists>rest. Errors (recordOutcome r v out) = Errors r @ rest"
  by (auto simp: recordOutcome_def split: sum.splits)

lemma importLoop_count:
  "importLoop lessFn envs pfx i videos r store = (None, r', store') \<Longrightarrow>
     Imported r' + Skipped r' + length (Errors r')
       = Imported r + Skipped r + length (Errors r) + length videos"
proof (induction videos arbitrary: i r store)
  case Nil
  then show ?case by simp
next
  case (Cons v vs)
  from Cons.prems obtain c: "cancelled (envs i) = None"
    and rest: "importLoop lessFn envs pfx (Suc i) vs
        (recordOutcome r v (dlResult (downloadYouTubeVideo lessFn store pfx (envs i) v True)))
        (dlStore (downloadYouTubeVideo lessFn store pfx (envs i) v True)) = (None, r', store')"
    by (auto simp: Let_def split: option.splits)
  from Cons.IH[OF rest] show ?case
    by (simp add: recordOutcome_count)
qed

lemma importLoop_Kind:
  "importLoop lessFn envs pfx i videos r store = (fatal, r', store') \<Longrightarrow> Kind r' = Kind r"
proof (induction videos arbitrary: i r store)
  case Nil
  then show ?case by simp
next
  case (Cons v vs)
  show ?case
  proof (cases "cancelled (envs i)")
    case None
    with Cons.prems Cons.IH show ?thesis
      by (fastforce simp: Let_def recordOutcome_Kind)
  next
    case (Some e)
    with Cons.prems show ?thesis by simp
  qed
qed

lemma importLoop_bytes:
  assumes "importLoop lessFn envs pfx i videos r store = (fatal, r', store')"
    and "TotalBytes r = sum_list (map SizeBytes (Items r))" and "length (Items r) = Imported r"
  shows "TotalBytes r' = sum_list (map SizeBytes (Items r')) \<and> length (Items r') = Imported r'"
  using assms
proof (induction videos arbitrary: i r store)
  case Nil
  then show ?case by simp
next
  case (Cons v vs)
  show ?case
  proof (cases "cancelled (envs i)")
    case None
    define out where "out = dlResult (downloadYouTubeVideo lessFn store pfx (envs i) v True)"
    from Cons.prems(1) None
    have rest: "importLoop lessFn envs pfx (Suc i) vs (recordOutcome r v out)
        (dlStore (downloadYouTubeVideo lessFn store pfx (envs i) v True)) = (fatal, r', store')"
      by (simp add: Let_def out_def)
    from Cons.IH[OF rest recordOutcome_bytes[OF Cons.prems(2,3)]] show ?thesis .
  next
    case (Some e)
    with Cons.prems show ?thesis by auto
  qed
qed

lemma importLoop_Errors:
  "importLoop lessFn envs pfx i videos r store = (fatal, r', store') \<Longrightarrow>
     \<exists>rest. Errors r' = Errors r @ rest"
proof (induction videos arbitrary: i r store)
  case Nil
  then show ?case by simp
next
  case (Cons v vs)
  show ?case
  proof (cases "cancelled (envs i)")
    case None
    define out where "out = dlResult (downloadYouTubeVideo lessFn store pfx (envs i) v True)"
    from Cons.prems None
    have rest: "importLoop lessFn envs pfx (Suc i) vs (recordOutcome r v out)
        (dlStore (downloadYouTubeVideo lessFn store pfx (envs i) v True)) = (fatal, r', store')"
      by (simp add: Let_def out_def)
    from Cons.IH[OF rest] recordOutcome_Errors[of r v out] show ?thesis by auto
  next
    case (Some e)
    with Cons.prems show ?thesis by auto
  qed
qed

subsection \<open>Resolution\<close>

lemma videosFromPlaylist_keeps:
  "videosFromPlaylist entries videos r = (videos', r') \<Longrightarrow>
     length videos' + length (Errors r') = length videos + length (Errors r) + length entries
     \<and> Imported r' = Imported r \<and> Skipped r' = Skipped r \<and> Kind r' = Kind r
     \<and> Items r' = Items r \<and> TotalBytes r' = TotalBytes r"
proof (induction entries arbitrary: videos r)
  case Nil
  then show ?case by simp
next
  case (Cons ea entries)
  obtain entry answer where ea: "ea = (entry, answer)" by (cases ea)
  show ?case
  proof (cases answer)
    case (Inl e)
    with Cons.prems ea Cons.IH[of videos
        "r\<lparr>Errors := Errors r @ [\<lparr>ErrTitle = EntryTitle entry, ErrVideoID = EntryID entry, Error = e\<rparr>]\<rparr>"]
    show ?thesis by simp
  next
    case (Inr video)
    with Cons.prems ea Cons.IH[of "videos @ [video]" r]
    show ?thesis by simp
  qed
qed

lemma resolve_single:
  assumes "playlistAnswer w = NotAPlaylist e"
    and "resolveYouTubeVideos (playlistAnswer w) (videoAnswer w) r = Inr (videos, kind, r')"
  shows "kind = ''video'' \<and> length videos = 1 \<and> r' = r"
  using assms by (auto simp: resolveYouTubeVideos_def split: sum.splits)

lemma resolve_playlist:
  assumes "playlistAnswer w = PlaylistFound entries"
    and "resolveYouTubeVideos (playlistAnswer w) (videoAnswer w) r = Inr (videos, kind, r')"
  shows "kind = ''playlist''
         \<and> length videos + length (Errors r') = length (Errors r) + length entries
         \<and> Imported r' = Imported r \<and> Skipped r' = Skipped r
         \<and> Items r' = Items r \<and> TotalBytes r' = TotalBytes r"
proof -
  obtain vs r1 where v: "videosFromPlaylist entries [] (r\<lparr>Kind := ''playlist''\<rparr>) = (vs, r1)"
    by (cases "videosFromPlaylist entries [] (r\<lparr>Kind := ''playlist''\<rparr>)")
  with assms have "videos = vs" "kind = ''playlist''" "r' = r1"
    by (simp_all add: resolveYouTubeVideos_def)
  with videosFromPlaylist_keeps[OF v] show ?thesis by simp
qed

lemma resolve_failed:
  "playlistAnswer w = PlaylistFailed e \<Longrightarrow>
     resolveYouTubeVideos (playlistAnswer w) (videoAnswer w) r \<noteq> Inr x"
  by (simp add: resolveYouTubeVideos_def)

lemma ImportYouTube_result:
  assumes "outResult (ImportYouTube lessFn w store input) = Inr r"
  shows "\<exists>videos kind r1 store'.
           resolveYouTubeVideos (playlistAnswer w) (videoAnswer w)
             \<lparr>Kind = ''video'', Imported = 0, Skipped = 0, TotalBytes = 0, Items = [], Errors = []\<rparr>
             = Inr (videos, kind, r1)
           \<and> importLoop lessFn (itemEnv w) (normalizeObjectPrefix (DestinationPrefix input)) 0
                videos (r1\<lparr>Kind := kind\<rparr>) store = (None, r, store')"
  using assms
  by (auto simp: ImportYouTube_def Let_def split: if_splits option.splits sum.splits prod.splits)

subsection \<open>Batches\<close>

lemma exWorldPlaylist_result:
  "outResult (ImportYouTube byBitrate exWorldPlaylist Map.empty exInput) = Inr exPlaylistResult"
  by code_simp

lemma exWorldSingle_result:
  "outResult (ImportYouTube byBitrate exWorldSingle Map.empty exInput) = Inr exSingleResult"
  by code_simp

lemma videosFromPlaylist_Errors:
  "videosFromPlaylist entries videos r = (videos', r') \<Longrightarrow>
     Errors r' = Errors r
       @ [\<lparr>ErrTitle = EntryTitle entry, ErrVideoID = EntryID entry, Error = e\<rparr>.
            (entry, Inl e) \<leftarrow> entries]"
proof (induction entries arbitrary: videos r)
  case Nil
  then show ?case by simp
next
  case (Cons ea entries)
  obtain entry answer where ea: "ea = (entry, answer)" by (cases ea)
  show ?case
  proof (cases answer)
    case (Inl e)
    with Cons.prems ea Cons.IH[of videos
        "r\<lparr>Errors := Errors r @ [\<lparr>ErrTitle = EntryTitle entry, ErrVideoID = EntryID entry, Error = e\<rparr>]\<rparr>"]
    show ?thesis by simp
  next
    case (Inr video)
    with Cons.prems ea Cons.IH[of "videos @ [video]" r]
    show ?thesis by simp
  qed
qed

text \<open>
  C1: when a batch returns a result, \<open>imported + skipped + len(errors)\<close> is the number of
  items the resolver yielded: the entries of the playlist, or one for a single video. The
  failures to load a playlist entry are the first errors of the result.
\<close>

theorem import_counts_add_up:
  assumes res: "outResult (ImportYouTube lessFn w store input) = Inr r"
  shows "Imported r + Skipped r + length (Errors r) = resolvedItems w
         \<and> (\<forall>entries. playlistAnswer w = PlaylistFound entries \<longrightarrow>
               (\<exists>rest. Errors r =
                  [\<lparr>ErrTitle = EntryTitle entry, ErrVideoID = EntryID entry, Error = e\<rparr>.
                     (entry, Inl e) \<leftarrow> entries] @ rest))"
proof -
  define r0 where "r0 = \<lparr>Kind = ''video'', Imported = 0, Skipped = 0, TotalBytes = 0,
      Items = [], Errors = ([] :: YouTubeImportError list)\<rparr>"
  from ImportYouTube_result[OF res] obtain videos kind r1 store' where
    rs: "resolveYouTubeVideos (playlistAnswer w) (videoAnswer w) r0 = Inr (videos, kind, r1)"
    and lp: "importLoop lessFn (itemEnv w) (normalizeObjectPrefix (DestinationPrefix input)) 0
                videos (r1\<lparr>Kind := kind\<rparr>) store = (None, r, store')"
    unfolding r0_def by blast
  from importLoop_count[OF lp]
  have cnt: "Imported r + Skipped r + length (Errors r)
      = Imported r1 + Skipped r1 + length (Errors r1) + length videos" by simp
  from importLoop_Errors[OF lp] obtain rest where rest: "Errors r = Errors r1 @ rest" by auto
  show ?thesis
  proof (cases "playlistAnswer w")
    case (PlaylistFound entries)
    from resolve_playlist[OF PlaylistFound rs] cnt PlaylistFound
    have c: "Imported r + Skipped r + length (Errors r) = resolvedItems w"
      by (simp add: resolvedItems_def r0_def)
    obtain vs r2 where v: "videosFromPlaylist entries [] (r0\<lparr>Kind := ''playlist''\<rparr>) = (vs, r2)"
      by (cases "videosFromPlaylist entries [] (r0\<lparr>Kind := ''playlist''\<rparr>)")
    with rs PlaylistFound have "r1 = r2" by (simp add: resolveYouTubeVideos_def)
    with videosFromPlaylist_Errors[OF v] rest
    have "Errors r = [\<lparr>ErrTitle = EntryTitle entry, ErrVideoID = EntryID entry, Error = e\<rparr>.
                     (entry, Inl e) \<leftarrow> entries] @ rest"
      by (simp add: r0_def)
    with c PlaylistFound show ?thesis by auto
  next
    case (NotAPlaylist e)
    from resolve_single[OF NotAPlaylist rs] cnt NotAPlaylist
    show ?thesis by (simp add: resolvedItems_def r0_def)
  next
    case (PlaylistFailed e)
    with resolve_failed[OF PlaylistFailed] rs show ?thesis by blast
  qed
qed

theorem import_counts_add_up_witness:
  "outResult (ImportYouTube byBitrate exWorldPlaylist Map.empty exInput) = Inr exPlaylistResult
   \<and> Imported exPlaylistResult + Skipped exPlaylistResult + length (Errors exPlaylistResult) = 3
   \<and> resolvedItems exWorldPlaylist = 3"
proof -
  have "resolvedItems exWorldPlaylist = 3"
    by (simp add: resolvedItems_def exWorldPlaylist_def)
  with import_counts_add_up[OF exWorldPlaylist_result] exWorldPlaylist_result
  show ?thesis by simp
qed

text \<open>
  C4: when a batch returns a result, \<open>totalBytes\<close> is the \<open>int64\<close> sum of \<open>sizeBytes\<close> over
  the items, and there is one item for each import counted. A skipped transfer reports
  size 0, and recording it leaves the items and \<open>totalBytes\<close> as they were.
\<close>

theorem import_totalBytes:
  assumes res: "outResult (ImportYouTube lessFn w store input) = Inr r"
  shows "TotalBytes r = sum_list (map SizeBytes (Items r))
         \<and> length (Items r) = Imported r
         \<and> (\<forall>st pfx env video item.
               dlResult (downloadYouTubeVideo lessFn st pfx env video True) = Inr (item, True)
               \<longrightarrow> SizeBytes item = 0)
         \<and> (\<forall>res video item.
               Items (recordOutcome res video (Inr (item, True))) = Items res
               \<and> TotalBytes (recordOutcome res video (Inr (item, True))) = TotalBytes res
               \<and> Skipped (recordOutcome res video (Inr (item, True))) = Skipped res + 1)"
proof -
  from ImportYouTube_result[OF res] obtain videos kind r1 store' where
    rs: "resolveYouTubeVideos (playlistAnswer w) (videoAnswer w)
           \<lparr>Kind = ''video'', Imported = 0, Skipped = 0, TotalBytes = 0, Items = [], Errors = []\<rparr>
           = Inr (videos, kind, r1)"
    and lp: "importLoop lessFn (itemEnv w) (normalizeObjectPrefix (DestinationPrefix input)) 0
                videos (r1\<lparr>Kind := kind\<rparr>) store = (None, r, store')"
    by blast
  have r1: "Items r1 = [] \<and> TotalBytes r1 = 0 \<and> Imported r1 = 0"
  proof (cases "playlistAnswer w")
    case (PlaylistFound entries)
    from resolve_playlist[OF PlaylistFound rs] show ?thesis by simp
  next
    case (NotAPlaylist e)
    from resolve_single[OF NotAPlaylist rs] show ?thesis by auto
  next
    case (PlaylistFailed e)
    with resolve_failed[OF PlaylistFailed] rs show ?thesis by blast
  qed
  from importLoop_bytes[OF lp] r1
  have "TotalBytes r = sum_list (map SizeBytes (Items r)) \<and> length (Items r) = Imported r"
    by simp
  moreover have "SizeBytes item = 0"
    if "dlResult (downloadYouTubeVideo lessFn st pfx env video True) = Inr (item, True)"
    for st pfx env video item
    using download_skip_cases[OF that] by blast
  ultimately show ?thesis by (simp add: recordOutcome_def)
qed

theorem import_totalBytes_witness:
  "outResult (ImportYouTube byBitrate exWorldPlaylist Map.empty exInput) = Inr exPlaylistResult
   \<and> TotalBytes exPlaylistResult = 1000
   \<and> map SizeBytes (Items exPlaylistResult) = [1000]
   \<and> Imported exPlaylistResult = 1 \<and> Skipped exPlaylistResult = 1"
proof -
  have "map SizeBytes (Items exPlaylistResult) = [1000]"
    and "Skipped exPlaylistResult = 1" and "TotalBytes exPlaylistResult = 1000"
    and "Imported exPlaylistResult = 1"
    by (simp_all add: exPlaylistResult_def importedItem_def)
  with import_totalBytes[OF exWorldPlaylist_result] exWorldPlaylist_result
  show ?thesis by simp
qed

text \<open>
  C8, as the code has it: when a batch returns a result, its kind is \<open>video\<close> when the
  reference was not a playlist and resolved to a single video, \<open>playlist\<close> when it resolved
  to a playlist, and nothing else.
\<close>

theorem import_kind:
  assumes res: "outResult (ImportYouTube lessFn w store input) = Inr r"
  shows "(\<forall>e. playlistAnswer w = NotAPlaylist e \<longrightarrow> Kind r = ''video'')
         \<and> (\<forall>entries. playlistAnswer w = PlaylistFound entries \<longrightarrow> Kind r = ''playlist'')
         \<and> (Kind r = ''video'' \<or> Kind r = ''playlist'')"
proof -
  from ImportYouTube_result[OF res] obtain videos kind r1 store' where
    rs: "resolveYouTubeVideos (playlistAnswer w) (videoAnswer w)
           \<lparr>Kind = ''video'', Imported = 0, Skipped = 0, TotalBytes = 0, Items = [], Errors = []\<rparr>
           = Inr (videos, kind, r1)"
    and lp: "importLoop lessFn (itemEnv w) (normalizeObjectPrefix (DestinationPrefix input)) 0
                videos (r1\<lparr>Kind := kind\<rparr>) store = (None, r, store')"
    by blast
  from importLoop_Kind[OF lp] have k: "Kind r = kind" by simp
  show ?thesis
  proof (cases "playlistAnswer w")
    case (PlaylistFound entries)
    from resolve_playlist[OF PlaylistFound rs] k PlaylistFound show ?thesis by simp
  next
    case (NotAPlaylist e)
    from resolve_single[OF NotAPlaylist rs] k NotAPlaylist show ?thesis by simp
  next
    case (PlaylistFailed e)
    with resolve_failed[OF PlaylistFailed] rs show ?thesis by blast
  qed
qed

theorem import_kind_witness:
  "outResult (ImportYouTube byBitrate exWorldPlaylist Map.empty exInput) = Inr exPlaylistResult
   \<and> playlistAnswer exWorldPlaylist = PlaylistFound
       [(\<lparr>EntryID = ''abc'', EntryTitle = ''My Song!''\<rparr>, Inr exVideo),
        (\<lparr>EntryID = ''gone'', EntryTitle = ''Private video''\<rparr>, Inl ''video is private''),
        (\<lparr>EntryID = ''abc'', EntryTitle = ''My Song!''\<rparr>, Inr exVideo)]
   \<and> Kind exPlaylistResult = ''playlist''"
proof -
  have "playlistAnswer exWorldPlaylist = PlaylistFound
       [(\<lparr>EntryID = ''abc'', EntryTitle = ''My Song!''\<rparr>, Inr exVideo),
        (\<lparr>EntryID = ''gone'', EntryTitle = ''Private video''\<rparr>, Inl ''video is private''),
        (\<lparr>EntryID = ''abc'', EntryTitle = ''My Song!''\<rparr>, Inr exVideo)]"
    by (simp add: exWorldPlaylist_def)
  with import_kind[OF exWorldPlaylist_result] exWorldPlaylist_result
  show ?thesis by simp
qed

text \<open>
  C8, as the claim states it, fails: a reference that is not a playlist and resolves to a
  single video gives a result of kind \<open>video\<close>, not \<open>single\<close>.
\<close>

theorem import_kind_single_counterexample:
  "playlistAnswer exWorldSingle = NotAPlaylist ''invalid playlist''
   \<and> videoAnswer exWorldSingle = Inr exVideo
   \<and> map_sum id Kind (outResult (ImportYouTube byBitrate exWorldSingle Map.empty exInput))
       = Inr ''video''
   \<and> map_sum id Kind (outResult (ImportYouTube byBitrate exWorldSingle Map.empty exInput))
       \<noteq> Inr ''single''"
proof -
  have "playlistAnswer exWorldSingle = NotAPlaylist ''invalid playlist''"
    and "videoAnswer exWorldSingle = Inr exVideo"
    by (simp_all add: exWorldSingle_def)
  moreover have "Kind exSingleResult = ''video''" by (simp add: exSingleResult_def)
  ultimately show ?thesis using exWorldSingle_result by simp
qed

subsection \<open>Destination keys of a batch\<close>

lemma recordOutcome_Items:
  "Items (recordOutcome r v out) =
     (case out of Inr (item, False) \<Rightarrow> Items r @ [item] | _ \<Rightarrow> Items r)"
  by (auto simp: recordOutcome_def split: sum.splits bool.splits)

lemma importLoop_distinct:
  assumes honest: "\<forall>i. honestHeads (envs i)"
    and loop: "importLoop lessFn envs pfx i videos r store = (fatal, r', store')"
    and dist: "distinct (map Key (Items r))"
    and pres: "\<forall>item\<in>set (Items r). store (Key item) \<noteq> None"
  shows "distinct (map Key (Items r')) \<and> (\<forall>item\<in>set (Items r'). store' (Key item) \<noteq> None)"
  using loop dist pres
proof (induction videos arbitrary: i r store)
  case Nil
  then show ?case by simp
next
  case (Cons v vs)
  show ?case
  proof (cases "cancelled (envs i)")
    case (Some e)
    with Cons.prems show ?thesis by auto
  next
    case None
    define d where "d = downloadYouTubeVideo lessFn store pfx (envs i) v True"
    from Cons.prems(1) None
    have rest: "importLoop lessFn envs pfx (Suc i) vs (recordOutcome r v (dlResult d)) (dlStore d)
        = (fatal, r', store')"
      by (simp add: Let_def d_def)
    from honest have h: "honestHeads (envs i)" by simp
    note eff = download_store_effect[OF h, of lessFn store pfx v True, folded d_def]
    have "distinct (map Key (Items (recordOutcome r v (dlResult d))))
        \<and> (\<forall>item\<in>set (Items (recordOutcome r v (dlResult d))). dlStore d (Key item) \<noteq> None)"
    proof (cases "\<exists>item. dlResult d = Inr (item, False)")
      case True
      then obtain item where it: "dlResult d = Inr (item, False)" by blast
      with eff obtain ob where free: "store (Key item) = None"
        and st: "dlStore d = store(Key item \<mapsto> ob)" by blast
      from free Cons.prems(3) have "Key item \<notin> Key ` set (Items r)" by force
      with Cons.prems(2,3) it st show ?thesis
        by (auto simp: recordOutcome_Items)
    next
      case False
      with eff have st: "dlStore d = store" by blast
      from False have "Items (recordOutcome r v (dlResult d)) = Items r"
        by (auto simp: recordOutcome_Items split: sum.splits bool.splits)
      with st Cons.prems(2,3) show ?thesis by simp
    qed
    with Cons.IH[OF rest] show ?thesis by blast
  qed
qed

lemma titleKey_not_idKey: "\<not> EqualFold youtubeVideoTitleMetadataKey youtubeVideoIDMetadataKey"
  by code_simp

lemma newMetadata_other_video:
  "ID v1 \<noteq> ID v2 \<Longrightarrow> \<not> metadataMatchesYouTubeVideo (newMetadata v1) (ID v2)"
  by (auto simp: metadataMatchesYouTubeVideo_def newMetadata_def titleKey_not_idKey)

lemma same_name_second_legacy:
  fixes input :: YouTubeImportInput
  defines "pfx \<equiv> normalizeObjectPrefix (DestinationPrefix input)"
  assumes res: "outResult (ImportYouTube lessFn w store input) = Inr r"
    and pl: "playlistAnswer w = PlaylistFound [(en1, Inr v1), (en2, Inr v2)]"
    and s1: "selectYouTubeFormat lessFn v1 = Inr f1"
    and s2: "selectYouTubeFormat lessFn v2 = Inr f2"
    and base: "buildYouTubeBaseName (Title v1) = buildYouTubeBaseName (Title v2)"
    and ext: "extensionFromMime (MimeType f1) = extensionFromMime (MimeType f2)"
    and ids: "ID v1 \<noteq> ID v2"
    and o1: "streamOpen (itemEnv w 0) = Inr (st1, h1)"
    and o2: "streamOpen (itemEnv w 1) = Inr (st2, h2)"
    and nf1: "headPrimaryFault (itemEnv w 0) = None" "headLegacyFault (itemEnv w 0) = None"
             "putFault (itemEnv w 0) = None"
    and nf2: "headPrimaryFault (itemEnv w 1) = None" "headLegacyFault (itemEnv w 1) = None"
             "putFault (itemEnv w 1) = None"
    and free: "store (primaryKeyOf pfx v1 f1) = None" "store (legacyKeyOf pfx v1 f1) = None"
              "store (legacyKeyOf pfx v2 f2) = None"
  shows "map Key (Items r) = [primaryKeyOf pfx v1 f1, legacyKeyOf pfx v2 f2]"
proof -
  define r0 where "r0 = \<lparr>Kind = ''playlist'', Imported = 0, Skipped = 0, TotalBytes = 0,
      Items = ([] :: YouTubeImportedItem list), Errors = ([] :: YouTubeImportError list)\<rparr>"
  define pk where "pk = primaryKeyOf pfx v1 f1"
  define lk2 where "lk2 = legacyKeyOf pfx v2 f2"
  have pk2: "primaryKeyOf pfx v2 f2 = pk"
    using base ext by (simp add: pk_def primaryKeyOf_def buildYouTubeFilename_def)
  have lk2_ne: "lk2 \<noteq> pk"
    using legacyKey_neq_primaryKey[of pfx v2 f2] by (simp add: lk2_def pk2)
  from ImportYouTube_result[OF res] pl obtain store' where
    lp: "importLoop lessFn (itemEnv w) pfx 0 [v1, v2] r0 store = (None, r, store')"
    by (auto simp: resolveYouTubeVideos_def r0_def pfx_def)
  define d1 where "d1 = downloadYouTubeVideo lessFn store pfx (itemEnv w 0) v1 True"
  have un1: "\<not> (case store (primaryKeyOf pfx v1 f1) of None \<Rightarrow> False
               | Some ob \<Rightarrow> metadataMatchesYouTubeVideo (objMetadata ob) (ID v1))"
    using free(1) by simp
  from download_write[OF s1 o1 nf1(1,2) un1 free(2), of True] nf1(3) free(1)
  obtain sz1 where
    r1: "dlResult d1 = Inr (importedItem v1 pk sz1 (contentTypeFromMime (MimeType f1)), False)"
    and st1: "dlStore d1 = store(pk \<mapsto> \<lparr>objMetadata = newMetadata v1,
                 objContentType = contentTypeFromMime (MimeType f1)\<rparr>)"
    by (auto simp: Let_def d1_def pk_def)
  define d2 where "d2 = downloadYouTubeVideo lessFn (dlStore d1) pfx (itemEnv w 1) v2 True"
  have un2: "\<not> (case dlStore d1 (primaryKeyOf pfx v2 f2) of None \<Rightarrow> False
               | Some ob \<Rightarrow> metadataMatchesYouTubeVideo (objMetadata ob) (ID v2))"
    using newMetadata_other_video[OF ids] by (simp add: st1 pk2)
  have free2: "dlStore d1 (legacyKeyOf pfx v2 f2) = None"
    using free(3) lk2_ne by (simp add: st1 lk2_def)
  have occ: "dlStore d1 (primaryKeyOf pfx v2 f2) \<noteq> None" by (simp add: st1 pk2)
  from download_write[OF s2 o2 nf2(1,2) un2 free2, of True] nf2(3) occ
  obtain sz2 where
    r2: "dlResult d2 = Inr (importedItem v2 lk2 sz2 (contentTypeFromMime (MimeType f2)), False)"
    by (auto simp: Let_def d2_def lk2_def)
  from lp have c0: "cancelled (itemEnv w 0) = None"
    by (auto split: option.splits)
  from lp c0 have c1: "cancelled (itemEnv w 1) = None"
    by (auto simp: Let_def split: option.splits)
  from lp c0 c1 have "r = recordOutcome (recordOutcome r0 v1 (dlResult d1)) v2 (dlResult d2)"
    by (simp add: Let_def d1_def d2_def)
  then show ?thesis
    by (simp add: r1 r2 recordOutcome_def r0_def importedItem_def pk_def lk2_def)
qed

lemma exWorldTwins_result:
  "outResult (ImportYouTube byBitrate exWorldTwins Map.empty exInput) = Inr exTwinsResult"
  by code_simp

lemma exEnv_honest: "honestHeads exEnv"
  by (simp add: honestHeads_def exEnv_def isNotFoundError_None)

lemma exWorldMixed_result:
  "outResult (ImportYouTube byBitrate exWorldMixed Map.empty exInput) = Inr exMixedResult"
  by code_simp

lemma exWorldLying_result:
  "outResult (ImportYouTube byBitrate exWorldLying Map.empty exInput) = Inr exLyingResult"
  by code_simp

lemma exMixed_baseName:
  "buildYouTubeBaseName (Title exVideo) = buildYouTubeBaseName (Title exVideoWebm)"
  by code_simp

lemma exVideoWebm_format: "selectYouTubeFormat byBitrate exVideoWebm = Inr exFormatWebm"
  by code_simp

lemma exVideoWebm_legacyKey:
  "legacyKeyOf ''media/'' exVideoWebm exFormatWebm = ''media/My-Song-xyz.webm''"
  by code_simp

lemma exInput_prefix: "normalizeObjectPrefix (DestinationPrefix exInput) = ''media/''"
  by code_simp

lemma videosFromPlaylist_videos:
  "videosFromPlaylist entries videos r = (videos', r') \<Longrightarrow>
     videos' = videos @ [video. (entry, Inr video) \<leftarrow> entries]"
proof (induction entries arbitrary: videos r)
  case Nil
  then show ?case by simp
next
  case (Cons ea entries)
  obtain entry answer where ea: "ea = (entry, answer)" by (cases ea)
  show ?case
  proof (cases answer)
    case (Inl e)
    with Cons.prems ea Cons.IH[of videos
        "r\<lparr>Errors := Errors r @ [\<lparr>ErrTitle = EntryTitle entry, ErrVideoID = EntryID entry, Error = e\<rparr>]\<rparr>"]
    show ?thesis by simp
  next
    case (Inr video)
    with Cons.prems ea Cons.IH[of "videos @ [video]" r]
    show ?thesis by simp
  qed
qed

text \<open>
  With honest head calls, an imported item is stored under the primary key when that key
  was free and under the legacy key when it was taken; either way the primary key is
  taken afterwards.
\<close>

lemma download_import_key:
  assumes honest: "honestHeads env"
    and sel: "selectYouTubeFormat lessFn video = Inr format"
    and imp: "dlResult (downloadYouTubeVideo lessFn store pfx env video progress) = Inr (item, False)"
  shows "((Key item = primaryKeyOf pfx video format \<and> store (primaryKeyOf pfx video format) = None)
          \<or> (Key item = legacyKeyOf pfx video format \<and> store (primaryKeyOf pfx video format) \<noteq> None))
         \<and> dlStore (downloadYouTubeVideo lessFn store pfx env video progress)
              (primaryKeyOf pfx video format) \<noteq> None
         \<and> ItemVideoID item = ID video \<and> ItemTitle item = Title video"
proof (cases "streamOpen env")
  case (Inl e)
  with imp download_unopened[of lessFn video e env store pfx progress]
  show ?thesis by auto
next
  case opn: (Inr so)
  obtain stream sizeHint where so: "so = (stream, sizeHint)" by (cases so)
  define pk where "pk = primaryKeyOf pfx video format"
  define lk where "lk = legacyKeyOf pfx video format"
  define d where "d = downloadYouTubeVideo lessFn store pfx env video progress"
  define h1 where "h1 = fst (HeadObject store (headPrimaryFault env) pk)"
  define e1 where "e1 = snd (HeadObject store (headPrimaryFault env) pk)"
  define e2 where "e2 = snd (HeadObject store (headLegacyFault env) lk)"
  define A where "A \<longleftrightarrow> e1 \<noteq> None \<and> \<not> isNotFoundError e1"
  define B where "B \<longleftrightarrow> e1 = None \<and> metadataMatchesYouTubeVideo (headMetadata h1) (ID video)"
  define C where "C \<longleftrightarrow> e2 = None"
  define E where "E \<longleftrightarrow> \<not> isNotFoundError e2"
  define key where "key = (if (if e1 \<noteq> None \<and> isNotFoundError e1 then None else h1) \<noteq> None
                 then lk else pk)"
  note D = download_opened[OF sel opn[unfolded so], of store pfx progress,
      folded pk_def lk_def, folded d_def h1_def e1_def e2_def, folded key_def A_def B_def C_def E_def]
  have i: "dlResult d = Inr (item, False)" using imp by (simp add: d_def)
  have nA: "\<not> A" using i D by (auto split: if_splits)
  have nB: "\<not> B" using i D nA by (auto split: if_splits)
  have nC: "\<not> C" using i D nA nB by (auto split: if_splits)
  have nE: "\<not> E" using i D nA nB nC by (auto split: if_splits)
  have pf: "putFault env = None" using i D nA nB nC nE by (cases "putFault env") simp_all
  have hp: "\<not> isNotFoundError (headPrimaryFault env)"
    using honest by (simp add: honestHeads_def)
  have k: "Key item = key" and st: "dlStore d key \<noteq> None"
    and idt: "ItemVideoID item = ID video \<and> ItemTitle item = Title video"
    using i D nA nB nC nE pf by (auto simp: importedItem_def)
  have st': "\<And>x. store x \<noteq> None \<Longrightarrow> dlStore d x \<noteq> None"
    using D nA nB nC nE pf by simp
  show ?thesis
  proof (cases "e1 = None")
    case True
    with honest_head_present[of store "headPrimaryFault env" pk]
    obtain ob where "store pk = Some ob" and "h1 = Some (objMetadata ob)"
      by (auto simp: e1_def h1_def)
    with True have "key = lk" and "store pk \<noteq> None" by (simp_all add: key_def)
    with k st'[of pk] idt show ?thesis
      unfolding d_def pk_def lk_def by simp
  next
    case False
    with nA have nf: "isNotFoundError e1" by (simp add: A_def)
    with honest_head_absent[OF hp, of store pk] have free: "store pk = None"
      by (simp add: e1_def)
    from nf False have "key = pk" by (simp add: key_def)
    with k st free idt show ?thesis
      unfolding d_def pk_def lk_def by simp
  qed
qed

lemma recordOutcome_Imported:
  "Imported (recordOutcome r v out) =
     Imported r + (case out of Inr (item, False) \<Rightarrow> 1 | _ \<Rightarrow> 0)"
  by (auto simp: recordOutcome_def split: sum.splits bool.splits)

lemma same_name_both_imported:
  fixes input :: YouTubeImportInput
  defines "pfx \<equiv> normalizeObjectPrefix (DestinationPrefix input)"
  assumes honest: "\<forall>i. honestHeads (itemEnv w i)"
    and res: "outResult (ImportYouTube lessFn w store input) = Inr r"
    and pl: "playlistAnswer w = PlaylistFound entries"
    and vs: "[video. (entry, Inr video) \<leftarrow> entries] = [v1, v2]"
    and s1: "selectYouTubeFormat lessFn v1 = Inr f1"
    and s2: "selectYouTubeFormat lessFn v2 = Inr f2"
    and base: "buildYouTubeBaseName (Title v1) = buildYouTubeBaseName (Title v2)"
    and ext: "extensionFromMime (MimeType f1) = extensionFromMime (MimeType f2)"
    and both: "Imported r = 2"
  shows "\<exists>a b. Items r = [a, b]
           \<and> ItemVideoID a = ID v1 \<and> ItemVideoID b = ID v2
           \<and> Key b = legacyKeyOf pfx v2 f2
           \<and> Key a \<noteq> Key b"
proof -
  define r0 where "r0 = \<lparr>Kind = ''video'', Imported = 0, Skipped = 0, TotalBytes = 0,
      Items = ([] :: YouTubeImportedItem list), Errors = ([] :: YouTubeImportError list)\<rparr>"
  from ImportYouTube_result[OF res] obtain videos kind r1 store' where
    rs: "resolveYouTubeVideos (playlistAnswer w) (videoAnswer w) r0 = Inr (videos, kind, r1)"
    and lp: "importLoop lessFn (itemEnv w) pfx 0 videos (r1\<lparr>Kind := kind\<rparr>) store = (None, r, store')"
    unfolding r0_def pfx_def by blast
  obtain vs' r2 where v: "videosFromPlaylist entries [] (r0\<lparr>Kind := ''playlist''\<rparr>) = (vs', r2)"
    by (cases "videosFromPlaylist entries [] (r0\<lparr>Kind := ''playlist''\<rparr>)")
  with rs pl have "videos = vs'" by (simp add: resolveYouTubeVideos_def)
  with videosFromPlaylist_videos[OF v] vs have videos: "videos = [v1, v2]" by simp
  from resolve_playlist[OF pl rs] have r1: "Items r1 = []" "Imported r1 = 0"
    by (simp_all add: r0_def)
  define rk where "rk = r1\<lparr>Kind := kind\<rparr>"
  have rk: "Items rk = []" "Imported rk = 0" using r1 by (simp_all add: rk_def)
  define d1 where "d1 = downloadYouTubeVideo lessFn store pfx (itemEnv w 0) v1 True"
  define d2 where "d2 = downloadYouTubeVideo lessFn (dlStore d1) pfx (itemEnv w 1) v2 True"
  from lp videos have c0: "cancelled (itemEnv w 0) = None"
    by (auto split: option.splits)
  from lp videos c0 have c1: "cancelled (itemEnv w 1) = None"
    by (auto simp: Let_def split: option.splits)
  from lp videos c0 c1
  have r: "r = recordOutcome (recordOutcome rk v1 (dlResult d1)) v2 (dlResult d2)"
    by (simp add: Let_def d1_def d2_def rk_def)
  have two: "(case dlResult d1 of Inr (item, False) \<Rightarrow> 1 | _ \<Rightarrow> 0)
      + (case dlResult d2 of Inr (item, False) \<Rightarrow> 1 | _ \<Rightarrow> (0::nat)) = 2"
    using both rk(2) by (simp add: r recordOutcome_Imported)
  have one: "(case out of Inr (item, False) \<Rightarrow> 1 | _ \<Rightarrow> (0::nat)) \<le> 1"
    for out :: "string + (YouTubeImportedItem \<times> bool)"
    by (auto split: sum.splits bool.splits)
  have i1: "\<exists>a. dlResult d1 = Inr (a, False)"
  proof (rule ccontr)
    assume "\<not> (\<exists>a. dlResult d1 = Inr (a, False))"
    then have "(case dlResult d1 of Inr (item, False) \<Rightarrow> 1 | _ \<Rightarrow> (0::nat)) = 0"
      by (auto split: sum.splits bool.splits)
    with two one[of "dlResult d2"] show False by simp
  qed
  have i2: "\<exists>b. dlResult d2 = Inr (b, False)"
  proof (rule ccontr)
    assume "\<not> (\<exists>b. dlResult d2 = Inr (b, False))"
    then have "(case dlResult d2 of Inr (item, False) \<Rightarrow> 1 | _ \<Rightarrow> (0::nat)) = 0"
      by (auto split: sum.splits bool.splits)
    with two one[of "dlResult d1"] show False by simp
  qed
  from i1 obtain a where a: "dlResult d1 = Inr (a, False)" by blast
  from i2 obtain b where b: "dlResult d2 = Inr (b, False)" by blast
  have items: "Items r = [a, b]"
    using a b rk(1) by (simp add: r recordOutcome_Items)
  from honest have h0: "honestHeads (itemEnv w 0)" and h1: "honestHeads (itemEnv w 1)"
    by simp_all
  have pk: "primaryKeyOf pfx v2 f2 = primaryKeyOf pfx v1 f1"
    using base ext by (simp add: primaryKeyOf_def buildYouTubeFilename_def)
  from download_import_key[OF h0 s1 a[unfolded d1_def]]
  have taken: "dlStore d1 (primaryKeyOf pfx v1 f1) \<noteq> None" and ida: "ItemVideoID a = ID v1"
    by (simp_all add: d1_def)
  from download_import_key[OF h1 s2 b[unfolded d2_def]] taken pk
  have kb: "Key b = legacyKeyOf pfx v2 f2" and idb: "ItemVideoID b = ID v2"
    by auto
  from download_store_effect[OF h0, of lessFn store pfx v1 True, folded d1_def] a
  have "dlStore d1 (Key a) \<noteq> None" by auto
  moreover from download_store_effect[OF h1, of lessFn "dlStore d1" pfx v2 True, folded d2_def] b
  have "dlStore d1 (Key b) = None" by auto
  ultimately have "Key a \<noteq> Key b" by auto
  with items ida idb kb show ?thesis by blast
qed

text \<open>
  C3, as the code has it: when the head calls are honest, the items of a returned result
  have pairwise distinct keys. For a playlist whose loadable entries are two videos whose
  titles give the same base name and whose selected formats give the same extension:
  when both are imported, their keys differ and the second is stored under its legacy
  key; and when the store has none of their keys, the streams open and no call fails,
  both are imported, the first under the primary key and the second under its legacy key.
\<close>

theorem imported_keys_distinct:
  assumes honest: "\<forall>i. honestHeads (itemEnv w i)"
    and res: "outResult (ImportYouTube lessFn w store input) = Inr r"
  shows "distinct (map Key (Items r))
     \<and> (\<forall>entries v1 v2 f1 f2.
          playlistAnswer w = PlaylistFound entries
          \<and> [video. (entry, Inr video) \<leftarrow> entries] = [v1, v2]
          \<and> selectYouTubeFormat lessFn v1 = Inr f1 \<and> selectYouTubeFormat lessFn v2 = Inr f2
          \<and> buildYouTubeBaseName (Title v1) = buildYouTubeBaseName (Title v2)
          \<and> extensionFromMime (MimeType f1) = extensionFromMime (MimeType f2)
          \<and> Imported r = 2
          \<longrightarrow> (\<exists>a b. Items r = [a, b]
                 \<and> ItemVideoID a = ID v1 \<and> ItemVideoID b = ID v2
                 \<and> Key b = legacyKeyOf (normalizeObjectPrefix (DestinationPrefix input)) v2 f2
                 \<and> Key a \<noteq> Key b))
     \<and> (\<forall>en1 en2 v1 v2 f1 f2 st1 h1 st2 h2.
          playlistAnswer w = PlaylistFound [(en1, Inr v1), (en2, Inr v2)]
          \<and> selectYouTubeFormat lessFn v1 = Inr f1 \<and> selectYouTubeFormat lessFn v2 = Inr f2
          \<and> buildYouTubeBaseName (Title v1) = buildYouTubeBaseName (Title v2)
          \<and> extensionFromMime (MimeType f1) = extensionFromMime (MimeType f2)
          \<and> ID v1 \<noteq> ID v2
          \<and> streamOpen (itemEnv w 0) = Inr (st1, h1) \<and> streamOpen (itemEnv w 1) = Inr (st2, h2)
          \<and> headPrimaryFault (itemEnv w 0) = None \<and> headLegacyFault (itemEnv w 0) = None
          \<and> putFault (itemEnv w 0) = None
          \<and> headPrimaryFault (itemEnv w 1) = None \<and> headLegacyFault (itemEnv w 1) = None
          \<and> putFault (itemEnv w 1) = None
          \<and> store (primaryKeyOf (normalizeObjectPrefix (DestinationPrefix input)) v1 f1) = None
          \<and> store (legacyKeyOf (normalizeObjectPrefix (DestinationPrefix input)) v1 f1) = None
          \<and> store (legacyKeyOf (normalizeObjectPrefix (DestinationPrefix input)) v2 f2) = None
          \<longrightarrow> map Key (Items r)
                = [primaryKeyOf (normalizeObjectPrefix (DestinationPrefix input)) v1 f1,
                   legacyKeyOf (normalizeObjectPrefix (DestinationPrefix input)) v2 f2])"
proof (intro conjI allI impI)
  from ImportYouTube_result[OF res] obtain videos kind r1 store' where
    rs: "resolveYouTubeVideos (playlistAnswer w) (videoAnswer w)
           \<lparr>Kind = ''video'', Imported = 0, Skipped = 0, TotalBytes = 0, Items = [], Errors = []\<rparr>
           = Inr (videos, kind, r1)"
    and lp: "importLoop lessFn (itemEnv w) (normalizeObjectPrefix (DestinationPrefix input)) 0
                videos (r1\<lparr>Kind := kind\<rparr>) store = (None, r, store')"
    by blast
  have r1: "Items r1 = []"
  proof (cases "playlistAnswer w")
    case (PlaylistFound entries)
    from resolve_playlist[OF PlaylistFound rs] show ?thesis by simp
  next
    case (NotAPlaylist e)
    from resolve_single[OF NotAPlaylist rs] show ?thesis by auto
  next
    case (PlaylistFailed e)
    with resolve_failed[OF PlaylistFailed] rs show ?thesis by blast
  qed
  from importLoop_distinct[OF honest lp] r1
  show "distinct (map Key (Items r))" by simp
next
  fix entries v1 v2 f1 f2
  assume a: "playlistAnswer w = PlaylistFound entries
          \<and> [video. (entry, Inr video) \<leftarrow> entries] = [v1, v2]
          \<and> selectYouTubeFormat lessFn v1 = Inr f1 \<and> selectYouTubeFormat lessFn v2 = Inr f2
          \<and> buildYouTubeBaseName (Title v1) = buildYouTubeBaseName (Title v2)
          \<and> extensionFromMime (MimeType f1) = extensionFromMime (MimeType f2)
          \<and> Imported r = 2"
  then show "\<exists>a b. Items r = [a, b]
                 \<and> ItemVideoID a = ID v1 \<and> ItemVideoID b = ID v2
                 \<and> Key b = legacyKeyOf (normalizeObjectPrefix (DestinationPrefix input)) v2 f2
                 \<and> Key a \<noteq> Key b"
    using same_name_both_imported[OF honest res, of entries v1 v2 f1 f2] by blast
next
  fix en1 en2 v1 v2 f1 f2 st1 h1 st2 h2
  assume a: "playlistAnswer w = PlaylistFound [(en1, Inr v1), (en2, Inr v2)]
          \<and> selectYouTubeFormat lessFn v1 = Inr f1 \<and> selectYouTubeFormat lessFn v2 = Inr f2
          \<and> buildYouTubeBaseName (Title v1) = buildYouTubeBaseName (Title v2)
          \<and> extensionFromMime (MimeType f1) = extensionFromMime (MimeType f2)
          \<and> ID v1 \<noteq> ID v2
          \<and> streamOpen (itemEnv w 0) = Inr (st1, h1) \<and> streamOpen (itemEnv w 1) = Inr (st2, h2)
          \<and> headPrimaryFault (itemEnv w 0) = None \<and> headLegacyFault (itemEnv w 0) = None
          \<and> putFault (itemEnv w 0) = None
          \<and> headPrimaryFault (itemEnv w 1) = None \<and> headLegacyFault (itemEnv w 1) = None
          \<and> putFault (itemEnv w 1) = None
          \<and> store (primaryKeyOf (normalizeObjectPrefix (DestinationPrefix input)) v1 f1) = None
          \<and> store (legacyKeyOf (normalizeObjectPrefix (DestinationPrefix input)) v1 f1) = None
          \<and> store (legacyKeyOf (normalizeObjectPrefix (DestinationPrefix input)) v2 f2) = None"
  then show "map Key (Items r)
                = [primaryKeyOf (normalizeObjectPrefix (DestinationPrefix input)) v1 f1,
                   legacyKeyOf (normalizeObjectPrefix (DestinationPrefix input)) v2 f2]"
    using same_name_second_legacy[OF res, of en1 v1 en2 v2 f1 f2 st1 h1 st2 h2] by blast
qed

lemma exVideoTwin_format: "selectYouTubeFormat byBitrate exVideoTwin = Inr exFormatMp4"
  by code_simp

lemma exTwins_baseName:
  "buildYouTubeBaseName (Title exVideo) = buildYouTubeBaseName (Title exVideoTwin)"
  by code_simp

lemma exVideoTwin_legacyKey:
  "legacyKeyOf ''media/'' exVideoTwin exFormatMp4 = ''media/My-Song-xyz.mp4''"
  by code_simp

theorem imported_keys_distinct_witness:
  "honestHeads exEnv
   \<and> outResult (ImportYouTube byBitrate exWorldTwins Map.empty exInput) = Inr exTwinsResult
   \<and> Imported exTwinsResult = 2
   \<and> buildYouTubeBaseName (Title exVideo) = buildYouTubeBaseName (Title exVideoTwin)
   \<and> map Key (Items exTwinsResult) = [''media/My-Song.mp4'', ''media/My-Song-xyz.mp4'']
   \<and> Key (Items exTwinsResult ! 1) = legacyKeyOf ''media/'' exVideoTwin exFormatMp4
   \<and> distinct (map Key (Items exTwinsResult))"
proof -
  have h: "\<forall>i. honestHeads (itemEnv exWorldTwins i)"
    by (simp add: exWorldTwins_def exEnv_honest)
  have k: "map Key (Items exTwinsResult) = [''media/My-Song.mp4'', ''media/My-Song-xyz.mp4'']"
    by (simp add: exTwinsResult_def importedItem_def)
  have two: "Imported exTwinsResult = 2" by (simp add: exTwinsResult_def)
  have pl: "playlistAnswer exWorldTwins = PlaylistFound
       [(\<lparr>EntryID = ''abc'', EntryTitle = ''My Song!''\<rparr>, Inr exVideo),
        (\<lparr>EntryID = ''xyz'', EntryTitle = ''My  Song?''\<rparr>, Inr exVideoTwin)]"
    by (simp add: exWorldTwins_def)
  note T = imported_keys_distinct[OF h exWorldTwins_result]
  from T have d: "distinct (map Key (Items exTwinsResult))" by blast
  from T pl exVideo_format exVideoTwin_format exTwins_baseName two
  have "\<exists>a b. Items exTwinsResult = [a, b]
      \<and> Key b = legacyKeyOf (normalizeObjectPrefix (DestinationPrefix exInput)) exVideoTwin exFormatMp4"
    by (fastforce simp: exInput_prefix)
  then have l: "Key (Items exTwinsResult ! 1) = legacyKeyOf ''media/'' exVideoTwin exFormatMp4"
    by (auto simp: exInput_prefix)
  from exEnv_honest exWorldTwins_result two exTwins_baseName k l d show ?thesis by simp
qed

text \<open>
  C3, as the claim states it, fails. Two videos with different IDs whose titles give the
  same base name, one with an mp4 format and one with a webm format, are both stored
  under their primary keys: the second does not fall back to its legacy key. And when a
  head call for an object that exists fails with an error that reads as not-found, a
  result has two items with one key.
\<close>

theorem imported_keys_counterexample:
  "buildYouTubeBaseName (Title exVideo) = buildYouTubeBaseName (Title exVideoWebm)
   \<and> ID exVideo \<noteq> ID exVideoWebm
   \<and> outResult (ImportYouTube byBitrate exWorldMixed Map.empty exInput) = Inr exMixedResult
   \<and> map Key (Items exMixedResult) = [''media/My-Song.mp4'', ''media/My-Song.webm'']
   \<and> legacyKeyOf ''media/'' exVideoWebm exFormatWebm = ''media/My-Song-xyz.webm''
   \<and> outResult (ImportYouTube byBitrate exWorldLying Map.empty exInput) = Inr exLyingResult
   \<and> map Key (Items exLyingResult) = [''media/My-Song.mp4'', ''media/My-Song.mp4'']
   \<and> \<not> distinct (map Key (Items exLyingResult))"
proof -
  have "ID exVideo \<noteq> ID exVideoWebm" by (simp add: exVideo_def exVideoWebm_def)
  moreover have "map Key (Items exMixedResult) = [''media/My-Song.mp4'', ''media/My-Song.webm'']"
    by (simp add: exMixedResult_def importedItem_def)
  moreover have "map Key (Items exLyingResult) = [''media/My-Song.mp4'', ''media/My-Song.mp4'']"
    by (simp add: exLyingResult_def importedItem_def)
  ultimately show ?thesis
    using exMixed_baseName exWorldMixed_result exVideoWebm_legacyKey exWorldLying_result
    by simp
qed

end
